theory Spec2Isabelle
  imports Complex_Main "HOL-Library.Multiset"
begin

section \<open>The connection manager (static/js/websocket.js)\<close>

text \<open>
  Values that travel with an event: \<open>null\<close>, strings, numbers and objects with named
  fields, as far as the manager builds or forwards them.
\<close>

datatype jsval = JNull | JStr string | JNum int | JObj "(string \<times> jsval) list"

text \<open>
  The Socket.IO client socket, as far as the code uses it: the \<open>reconnectionAttempts\<close>
  option \<open>io\<close> was called with (\<open>None\<close> when \<open>io()\<close> is called without options), the
  messages handed to \<open>socket.emit\<close> (oldest first) and the number of \<open>socket.connect()\<close>
  calls.
\<close>

record socket_io =
  reconnectionAttempts :: "nat option"
  emitted :: "(string \<times> jsval) list"
  connect_calls :: nat

text \<open>
  A handler is a JavaScript function value; \<open>indexOf\<close> compares such values by identity, so
  a handler is modelled by an identifier and its body is looked up in an environment
  (see \<open>behaviour\<close> below).
\<close>

type_synonym hid = nat

text \<open>
  The fields of \<open>WebSocketManager\<close>. \<open>eventHandlers\<close> is the \<open>Map\<close> from event names to
  arrays of handlers; \<open>analysisRooms\<close> is the \<open>Set\<close> of room identifiers, kept as a list
  without duplicates in insertion order (the order \<open>forEach\<close> visits it).
  \<open>statusShown\<close> records the calls of \<open>showConnectionStatus\<close> (message and type, oldest
  first); the styling of the indicator element and its fade-out timer are not modelled.
\<close>

record ws_manager =
  socket :: "socket_io option"
  reconnectAttempts :: nat
  maxReconnectAttempts :: nat
  reconnectInterval :: nat
  isConnected :: bool
  eventHandlers :: "string \<rightharpoonup> hid list"
  analysisRooms :: "string list"
  statusShown :: "(string \<times> string) list"

definition constructor :: ws_manager where
  "constructor =
     \<lparr> socket = None, reconnectAttempts = 0, maxReconnectAttempts = 5,
       reconnectInterval = 5000, isConnected = False, eventHandlers = Map.empty,
       analysisRooms = [], statusShown = [] \<rparr>"

definition showConnectionStatus ::
  "string \<Rightarrow> string \<Rightarrow> 'a ws_manager_scheme \<Rightarrow> 'a ws_manager_scheme" where
  "showConnectionStatus message type m = m\<lparr>statusShown := statusShown m @ [(message, type)]\<rparr>"

subsection \<open>The handler registry: \<open>on\<close> and \<open>off\<close>\<close>

text \<open>\<open>Array.prototype.indexOf\<close>: the first position holding the value, \<open>None\<close> for -1.\<close>

fun indexOf :: "'a list \<Rightarrow> 'a \<Rightarrow> nat option" where
  "indexOf [] h = None"
| "indexOf (x # xs) h = (if x = h then Some 0 else map_option Suc (indexOf xs h))"

text \<open>\<open>handlers.splice(index, 1)\<close>: delete the one element at \<open>index\<close>.\<close>

definition splice1 :: "nat \<Rightarrow> 'a list \<Rightarrow> 'a list" where
  "splice1 index xs = take index xs @ drop (Suc index) xs"

definition on :: "string \<Rightarrow> hid \<Rightarrow> 'a ws_manager_scheme \<Rightarrow> 'a ws_manager_scheme" where
  "on event handler m =
     (let m1 = (if eventHandlers m event = None
                then m\<lparr>eventHandlers := (eventHandlers m)(event \<mapsto> [])\<rparr> else m)
      in case eventHandlers m1 event of
           None \<Rightarrow> m1
         | Some handlers \<Rightarrow> m1\<lparr>eventHandlers := (eventHandlers m1)(event \<mapsto> handlers @ [handler])\<rparr>)"

definition off :: "string \<Rightarrow> hid \<Rightarrow> 'a ws_manager_scheme \<Rightarrow> 'a ws_manager_scheme" where
  "off event handler m =
     (case eventHandlers m event of
        None \<Rightarrow> m
      | Some handlers \<Rightarrow>
          (case indexOf handlers handler of
             None \<Rightarrow> m
           | Some index \<Rightarrow> m\<lparr>eventHandlers := (eventHandlers m)(event \<mapsto> splice1 index handlers)\<rparr>))"

text \<open>The handlers registered for an event, in array order; none when the map has no entry.\<close>

definition handlers_of :: "'a ws_manager_scheme \<Rightarrow> string \<Rightarrow> hid list" where
  "handlers_of m event = (case eventHandlers m event of None \<Rightarrow> [] | Some handlers \<Rightarrow> handlers)"

subsection \<open>Rooms\<close>

text \<open>\<open>Set.prototype.add\<close> and \<open>delete\<close> on the insertion-ordered list.\<close>

definition set_add :: "'a \<Rightarrow> 'a list \<Rightarrow> 'a list" where
  "set_add x xs = (if x \<in> set xs then xs else xs @ [x])"

definition set_delete :: "'a \<Rightarrow> 'a list \<Rightarrow> 'a list" where
  "set_delete x xs = removeAll x xs"

definition socket_emit :: "string \<Rightarrow> jsval \<Rightarrow> socket_io \<Rightarrow> socket_io" where
  "socket_emit event data s = s\<lparr>emitted := emitted s @ [(event, data)]\<rparr>"

definition joinAnalysis :: "string \<Rightarrow> 'a ws_manager_scheme \<Rightarrow> 'a ws_manager_scheme \<times> bool" where
  "joinAnalysis analysisId m =
     (case socket m of
        None \<Rightarrow> (m, False)
      | Some s \<Rightarrow>
          if \<not> isConnected m then (m, False)
          else (m\<lparr>socket := Some (socket_emit ''join_analysis'' (JObj [(''analysis_id'', JStr analysisId)]) s),
                  analysisRooms := set_add analysisId (analysisRooms m)\<rparr>, True))"

definition leaveAnalysis :: "string \<Rightarrow> 'a ws_manager_scheme \<Rightarrow> 'a ws_manager_scheme \<times> bool" where
  "leaveAnalysis analysisId m =
     (case socket m of
        None \<Rightarrow> (m, False)
      | Some s \<Rightarrow>
          (m\<lparr>socket := Some (socket_emit ''leave_analysis'' (JObj [(''analysis_id'', JStr analysisId)]) s),
             analysisRooms := set_delete analysisId (analysisRooms m)\<rparr>, True))"

text \<open>
  \<open>rejoinAnalysisRooms\<close> calls \<open>this.socket.emit\<close> once per room. With no socket the first
  call raises a \<open>TypeError\<close>; with no room the body never runs.
\<close>

datatype error = TypeError

definition rejoinAnalysisRooms :: "'a ws_manager_scheme \<Rightarrow> error + 'a ws_manager_scheme" where
  "rejoinAnalysisRooms m =
     (case analysisRooms m of
        [] \<Rightarrow> Inr m
      | _ # _ \<Rightarrow>
          (case socket m of
             None \<Rightarrow> Inl TypeError
           | Some s \<Rightarrow>
               Inr (m\<lparr>socket := Some (fold (\<lambda>analysisId. socket_emit ''join_analysis''
                                              (JObj [(''analysis_id'', JStr analysisId)]))
                                         (analysisRooms m) s)\<rparr>)))"

subsection \<open>Fan-out: \<open>triggerEvent\<close>\<close>

text \<open>
  What a call of a handler does: the state it leaves behind and whether it returned or
  threw. A handler is any code of the page, so it may use the manager itself (the handler
  that \<open>initializeWebSocket\<close> registers calls \<open>joinAnalysis\<close>); the rest of the page lives in
  the extension part of the record.
\<close>

datatype outcome = Returned | Threw

type_synonym 'a behaviour = "hid \<Rightarrow> jsval \<Rightarrow> 'a ws_manager_scheme \<Rightarrow> 'a ws_manager_scheme \<times> outcome"

text \<open>
  \<open>handlers.forEach(handler => { try { handler(data) } catch (error) { console.error(...) } })\<close>.
  \<open>forEach\<close> reads the length of the array once, then visits the indices \<open>k\<close> below it in
  order and calls the callback for those still present in the array at that moment; the
  array is the live one of the registry, the one \<open>on\<close> pushes to and \<open>off\<close> splices.
  The second number counts the indices still to visit. The result lists the calls made, in
  order, each with its outcome (a \<open>Threw\<close> is the caught and logged error).
\<close>

fun forEach_handlers ::
  "'a behaviour \<Rightarrow> string \<Rightarrow> jsval \<Rightarrow> nat \<Rightarrow> nat \<Rightarrow> 'a ws_manager_scheme
     \<Rightarrow> 'a ws_manager_scheme \<times> (hid \<times> outcome) list" where
  "forEach_handlers beh event data k 0 m = (m, [])"
| "forEach_handlers beh event data k (Suc n) m =
     (let handlers = handlers_of m event in
      if k < length handlers then
        (let r = beh (handlers ! k) data m;
             rest = forEach_handlers beh event data (Suc k) n (fst r)
         in (fst rest, (handlers ! k, snd r) # snd rest))
      else forEach_handlers beh event data (Suc k) n m)"

definition triggerEvent ::
  "'a behaviour \<Rightarrow> string \<Rightarrow> jsval \<Rightarrow> 'a ws_manager_scheme
     \<Rightarrow> 'a ws_manager_scheme \<times> (hid \<times> outcome) list" where
  "triggerEvent beh event data m =
     (case eventHandlers m event of
        None \<Rightarrow> (m, [])
      | Some handlers \<Rightarrow> forEach_handlers beh event data 0 (length handlers) m)"

subsection \<open>Connection lifecycle\<close>

text \<open>
  \<open>initialize\<close> depends on the page: whether the global \<open>io\<close> is defined, and whether calling
  it throws (the \<open>catch\<close> branch). The listeners that \<open>setupEventHandlers\<close> attaches to the
  socket are the functions \<open>on_connect\<close>, \<open>on_disconnect\<close>, ... below.
\<close>

datatype io_env = IoUndefined | IoThrows | IoAvailable

definition initialize :: "io_env \<Rightarrow> 'a ws_manager_scheme \<Rightarrow> 'a ws_manager_scheme \<times> bool" where
  "initialize env m =
     (case env of
        IoUndefined \<Rightarrow> (m, False)
      | IoThrows \<Rightarrow> (m, False)
      | IoAvailable \<Rightarrow>
          (m\<lparr>socket := Some \<lparr>reconnectionAttempts = Some (maxReconnectAttempts m),
                              emitted = [], connect_calls = 0\<rparr>\<rparr>, True))"

definition on_connect ::
  "'a behaviour \<Rightarrow> 'a ws_manager_scheme \<Rightarrow> error + 'a ws_manager_scheme \<times> (hid \<times> outcome) list" where
  "on_connect beh m =
     (let m1 = m\<lparr>isConnected := True, reconnectAttempts := 0\<rparr>;
          m2 = showConnectionStatus ''Connected to server'' ''success'' m1
      in case rejoinAnalysisRooms m2 of
           Inl e \<Rightarrow> Inl e
         | Inr m3 \<Rightarrow> Inr (triggerEvent beh ''ws_connected'' JNull m3))"

definition on_disconnect ::
  "'a behaviour \<Rightarrow> string \<Rightarrow> 'a ws_manager_scheme \<Rightarrow> 'a ws_manager_scheme \<times> (hid \<times> outcome) list" where
  "on_disconnect beh reason m =
     (let m1 = m\<lparr>isConnected := False\<rparr>;
          m2 = showConnectionStatus ''Disconnected from server'' ''warning'' m1
      in triggerEvent beh ''ws_disconnected'' (JObj [(''reason'', JStr reason)]) m2)"

definition on_reconnect_error :: "'a ws_manager_scheme \<Rightarrow> 'a ws_manager_scheme" where
  "on_reconnect_error m =
     (let m1 = m\<lparr>reconnectAttempts := reconnectAttempts m + 1\<rparr>
      in if reconnectAttempts m1 \<ge> maxReconnectAttempts m1
         then showConnectionStatus ''Failed to reconnect'' ''error'' m1
         else m1)"

text \<open>
  \<open>disconnect()\<close>. \<open>this.socket.disconnect()\<close> closes the transport, and on a connected socket
  it fires the listener for \<open>disconnect\<close> at once, with the reason \<open>io client disconnect\<close>:
  \<open>on_disconnect\<close> runs, handlers included, before the manager forgets the socket and the
  rooms. The socket of the model is connected when \<open>isConnected\<close> is set, the flag that the
  listeners for \<open>connect\<close> and \<open>disconnect\<close> keep. The result lists the handler calls made.
\<close>

definition disconnect ::
  "'a behaviour \<Rightarrow> 'a ws_manager_scheme \<Rightarrow> 'a ws_manager_scheme \<times> (hid \<times> outcome) list" where
  "disconnect beh m =
     (case socket m of
        None \<Rightarrow> (m, [])
      | Some s \<Rightarrow>
          (let r = (if isConnected m then on_disconnect beh ''io client disconnect'' m else (m, []))
           in ((fst r)\<lparr>socket := None, isConnected := False, analysisRooms := []\<rparr>, snd r)))"

definition reconnect :: "io_env \<Rightarrow> 'a ws_manager_scheme \<Rightarrow> 'a ws_manager_scheme" where
  "reconnect env m =
     (case socket m of
        Some s \<Rightarrow> m\<lparr>socket := Some (s\<lparr>connect_calls := connect_calls s + 1\<rparr>)\<rparr>
      | None \<Rightarrow> fst (initialize env m))"

text \<open>
  \<open>initializeWebSocket(analysisId)\<close> of websocket.js: it initialises the manager and joins
  the room, at once when the manager is connected, otherwise through a handler for
  \<open>ws_connected\<close> that it registers. \<open>h\<close> is that handler (a new function value), and
  \<open>joins_on_connect\<close> is what it does when called: \<open>wsManager.joinAnalysis(analysisId)\<close>.
\<close>

definition initializeWebSocket_manager ::
  "io_env \<Rightarrow> hid \<Rightarrow> string \<Rightarrow> 'a ws_manager_scheme \<Rightarrow> 'a ws_manager_scheme" where
  "initializeWebSocket_manager env h analysisId m =
     (let r = initialize env m
      in if snd r
         then (if isConnected (fst r) then fst (joinAnalysis analysisId (fst r))
               else on ''ws_connected'' h (fst r))
         else fst r)"

definition joins_on_connect :: "string \<Rightarrow> 'a behaviour" where
  "joins_on_connect analysisId h data m = (fst (joinAnalysis analysisId m), Returned)"

text \<open>
  The manager never holds rooms without a socket, and is never marked connected without
  one: the state the constructor builds has this property and the manager's own
  operations keep it.
\<close>

definition manager_inv :: "'a ws_manager_scheme \<Rightarrow> bool" where
  "manager_inv m = (socket m = None \<longrightarrow> analysisRooms m = [] \<and> \<not> isConnected m)"

text \<open>How often the indicator has shown "Failed to reconnect".\<close>

definition failed_notices :: "'a ws_manager_scheme \<Rightarrow> nat" where
  "failed_notices m = count_list (statusShown m) (''Failed to reconnect'', ''error'')"

section \<open>The analysis page (static/js/analysis.js)\<close>

subsection \<open>The step catalogue\<close>

record step_config =
  name :: string
  description :: string
  duration :: nat
  progress :: rat

text \<open>\<open>ANALYSIS_STEPS\<close>, in the order the object literal lists its keys.\<close>

definition ANALYSIS_STEPS :: "(string \<times> step_config) list" where
  "ANALYSIS_STEPS =
     [ (''market_research'',
          \<lparr> name = ''Market Research'',
            description = ''Comprehensive multi-source market intelligence gathering'',
            duration = 600, progress = 10 \<rparr>),
       (''avatar_analysis'',
          \<lparr> name = ''Avatar Psychology Analysis'',
            description = ''Deep psychological profiling of target audience'',
            duration = 480, progress = 25 \<rparr>),
       (''mental_drivers'',
          \<lparr> name = ''Mental Drivers Framework'',
            description = ''Custom psychological triggers and anchoring mechanisms'',
            duration = 420, progress = 40 \<rparr>),
       (''objection_analysis'',
          \<lparr> name = ''Objection Analysis'',
            description = ''Anti-objection engineering and counter-strategy development'',
            duration = 360, progress = 55 \<rparr>),
       (''provi_system'',
          \<lparr> name = ''Visual Proof System (PROVIs)'',
            description = ''Physical demonstration system for abstract concepts'',
            duration = 480, progress = 70 \<rparr>),
       (''prepitch_architecture'',
          \<lparr> name = ''Pre-Pitch Architecture'',
            description = ''Invisible persuasion sequence and psychological preparation'',
            duration = 360, progress = 85 \<rparr>),
       (''report_generation'',
          \<lparr> name = ''Report Generation'',
            description = ''Comprehensive analysis compilation and formatting'',
            duration = 300, progress = 95 \<rparr>),
       (''pdf_generation'',
          \<lparr> name = ''PDF Generation'',
            description = ''Professional document creation and formatting'',
            duration = 120, progress = 100 \<rparr>) ]"

subsection \<open>Numbers and strings\<close>

text \<open>
  A JavaScript number is a double; it is kept as the rational number it denotes. Instants
  (milliseconds) and whole seconds are integers, taken to be within the range \<open>\<plusminus>2^53\<close>
  where doubles hold integers exactly, so that sums, differences and the floor of a
  quotient of integers are exact (\<open>floor_to_double_div\<close> below); they are of type
  \<open>int\<close>. Percentages are of type \<open>rat\<close>. Where the code divides, multiplies or subtracts numbers that are not integers, the
  result is the exact one rounded by \<open>to_double\<close>: to the nearest number with a
  significand of 53 bits, a tie going to the even significand, with the fixed quantum
  \<open>2^-1074\<close> below \<open>2^-1022\<close>. Results beyond the largest double are outside the model, as
  are \<open>NaN\<close> and the infinities.
\<close>

fun bitlen :: "nat \<Rightarrow> nat" where
  "bitlen n = (if n = 0 then 0 else Suc (bitlen (n div 2)))"

declare bitlen.simps [simp del]

definition pow2 :: "int \<Rightarrow> rat" where
  "pow2 k = (if 0 \<le> k then 2 ^ nat k else 1 / 2 ^ nat (- k))"

text \<open>The exponent of a positive number: the \<open>k\<close> with \<open>2^k \<le> x < 2^(k+1)\<close>.\<close>

definition ilog2 :: "rat \<Rightarrow> int" where
  "ilog2 x =
     (if 1 \<le> x then int (bitlen (nat \<lfloor>x\<rfloor>)) - 1
      else (let k = int (bitlen (nat \<lfloor>1 / x\<rfloor>)) - 1
            in if x = pow2 (- k) then - k else - k - 1))"

definition round_half_even :: "rat \<Rightarrow> int" where
  "round_half_even x =
     (let f = \<lfloor>x\<rfloor>; d = x - of_int f
      in if d < 1 / 2 then f else if 1 / 2 < d then f + 1 else if even f then f else f + 1)"

definition to_double :: "rat \<Rightarrow> rat" where
  "to_double x =
     (if x = 0 then 0
      else (let e = max (ilog2 \<bar>x\<bar>) (- 1022); q = pow2 (e - 52)
            in of_int (round_half_even (x / q)) * q))"

text \<open>
  \<open>show_int\<close> is the decimal text of an integer, which is what \<open>toString\<close> and string
  concatenation give for integers below \<open>10^21\<close>.
\<close>

fun show_nat :: "nat \<Rightarrow> string" where
  "show_nat n =
     (if n < 10 then [''0123456789'' ! n]
      else show_nat (n div 10) @ [''0123456789'' ! (n mod 10)])"

declare show_nat.simps [simp del]

definition show_int :: "int \<Rightarrow> string" where
  "show_int i = (if i < 0 then CHR ''-'' # show_nat (nat (- i)) else show_nat (nat i))"

text \<open>\<open>Math.round\<close>: the nearest integer, halves upwards.\<close>

definition Math_round :: "rat \<Rightarrow> int" where
  "Math_round x = \<lfloor>x + 1 / 2\<rfloor>"

text \<open>The remainder operator \<open>%\<close> on integers: the sign follows the dividend.\<close>

definition js_rem :: "int \<Rightarrow> int \<Rightarrow> int" where
  "js_rem a b = (if a < 0 then - ((- a) mod \<bar>b\<bar>) else a mod \<bar>b\<bar>)"

text \<open>\<open>padStart(2, '0')\<close>.\<close>

definition padStart2 :: "string \<Rightarrow> string" where
  "padStart2 t = replicate (2 - length t) (CHR ''0'') @ t"

definition formatTime :: "int \<Rightarrow> string" where
  "formatTime seconds =
     (let mins = seconds div 60;
          secs = js_rem seconds 60
      in padStart2 (show_int mins) @ '':'' @ padStart2 (show_int secs))"

text \<open>\<open>toLowerCase\<close> on the letters A to Z (the catalogue and the status texts are ASCII).\<close>

definition toLowerCase :: "string \<Rightarrow> string" where
  "toLowerCase t =
     map (\<lambda>c. case indexOf ''ABCDEFGHIJKLMNOPQRSTUVWXYZ'' c of
                 None \<Rightarrow> c
               | Some i \<Rightarrow> ''abcdefghijklmnopqrstuvwxyz'' ! i) t"

fun startsWith :: "string \<Rightarrow> string \<Rightarrow> bool" where
  "startsWith t [] = True"
| "startsWith [] (p # ps) = False"
| "startsWith (c # cs) (p # ps) = (c = p \<and> startsWith cs ps)"

text \<open>\<open>String.prototype.includes\<close>.\<close>

fun includes_str :: "string \<Rightarrow> string \<Rightarrow> bool" where
  "includes_str [] p = (p = [])"
| "includes_str (c # cs) p = (startsWith (c # cs) p \<or> includes_str cs p)"

text \<open>\<open>key.replace('_', ' ')\<close>: a string pattern replaces the first occurrence only.\<close>

fun replace_first :: "char \<Rightarrow> char \<Rightarrow> string \<Rightarrow> string" where
  "replace_first a b [] = []"
| "replace_first a b (c # cs) = (if c = a then b # cs else c # replace_first a b cs)"

fun first_matching_step :: "string \<Rightarrow> (string \<times> step_config) list \<Rightarrow> string option" where
  "first_matching_step lowerMessage [] = None"
| "first_matching_step lowerMessage ((key, config) # rest) =
     (if includes_str lowerMessage (replace_first (CHR ''_'') (CHR '' '') key)
         \<or> includes_str lowerMessage (toLowerCase (name config))
      then Some key
      else first_matching_step lowerMessage rest)"

definition getCurrentStepKey :: "string option \<Rightarrow> string option" where
  "getCurrentStepKey message =
     (case message of
        None \<Rightarrow> None
      | Some t \<Rightarrow> if t = [] then None else first_matching_step (toLowerCase t) ANALYSIS_STEPS)"

subsection \<open>The page state\<close>

text \<open>
  The inline \<open>style.width\<close> of the progress bar: not set, or the text \<open>p%\<close> that
  \<open>updateProgress\<close> and \<open>restartAnalysis\<close> write, kept as the number \<open>p\<close>. (A browser
  keeps the old width when the text assigned is not a valid width, such as a negative
  percentage; the statements below are about percentages that are not negative.)
\<close>

datatype css_width = Unset | Percent rat

text \<open>\<open>parseFloat(progressFill.style.width) || 0\<close>: the empty string parses to NaN.\<close>

definition parseFloat_width :: "css_width \<Rightarrow> rat" where
  "parseFloat_width w = (case w of Unset \<Rightarrow> 0 | Percent p \<Rightarrow> p)"

text \<open>
  An item of the timeline (\<open>.step-item\<close>): its \<open>data-step\<close> attribute and which of the three
  looks the code gives it (the icon shown together with the \<open>active\<close>/\<open>completed\<close> class).
\<close>

datatype step_look = Pending | Active | Completed

record step_item =
  stepKey :: "string option"
  look :: step_look

text \<open>
  Text produced by \<open>toLocaleTimeString\<close> depends on the locale; it is kept as the instant it
  renders. A notification is the text handed to \<open>showNotification\<close> with its level; the
  completion message embeds the locale rendering of the word count, kept as the count.
\<close>

datatype text_node = Text string | LocaleTime int

datatype notice = Plain string | ReportWords "nat option"

record button =
  displayed :: bool
  click_listeners :: nat

text \<open>
  The module's variables and the parts of the document the code reads or writes. An element
  the page does not contain is \<open>None\<close> (\<open>getElementById\<close> returns \<open>null\<close>).
  \<open>intervals\<close> are the \<open>setInterval\<close> timers alive, by handle; \<open>requests\<close> lists the status
  requests issued, each with the \<open>analysisId\<close> in its URL; \<open>in_flight\<close> counts the \<open>poll\<close>
  calls waiting for their response and \<open>poll_timers\<close> the pending \<open>setTimeout(poll, ...)\<close>.
  The staggered animation of \<open>animateCompletion\<close> is only counted.
  A message is put into the feed as markup (\<open>innerHTML\<close>), so the browser's parser is part of
  the page: \<open>feed_items_in t\<close> is the number of elements of class \<open>feed-item\<close> that the text
  \<open>t\<close> yields when it is parsed as HTML (none for a text without markup).
\<close>

record page =
  analysisSocket :: "socket_io option"
  analysisId :: "string option"
  startTime :: "int option"
  progressInterval :: "nat option"
  intervals :: "nat list"
  timers_created :: nat
  progress_fill :: "css_width option"
  progress_percentage :: "string option"
  current_step_title :: "string option"
  current_step_description :: "string option"
  step_items :: "step_item list"
  analysis_feed :: "(int \<times> string) list option"
  error_section_hidden :: "bool option"
  error_message :: "string option"
  elapsed_time :: "string option"
  remaining_time :: "string option"
  completion_time :: "text_node option"
  view_report :: "button option"
  notifier :: bool
  notifications :: "(notice \<times> string) list"
  completion_animations :: nat
  requests :: "string option list"
  in_flight :: nat
  poll_timers :: nat
  feed_items_in :: "string \<Rightarrow> nat"

subsection \<open>Progress display\<close>

text \<open>Every function that reads the clock (\<open>new Date()\<close>) takes the instant as \<open>now\<close>.\<close>

text \<open>
  An entry of the feed is the \<open>div\<close> of class \<open>feed-item\<close> that \<open>addFeedItem\<close> appends, with
  its timestamp and message. \<open>feed.querySelectorAll('.feed-item')\<close> finds every element of
  that class below the feed, in document order: each entry, followed by the elements of that
  class which its message has put inside it. \<open>items.length\<close> is their number, and
  \<open>items[0]\<close> is the first entry, which \<open>remove()\<close> takes away with all it contains.
\<close>

definition querySelectorAll_length :: "(string \<Rightarrow> nat) \<Rightarrow> (int \<times> string) list \<Rightarrow> nat" where
  "querySelectorAll_length parse feed = sum_list (map (\<lambda>entry. 1 + parse (snd entry)) feed)"

definition addFeedItem :: "int \<Rightarrow> string \<Rightarrow> page \<Rightarrow> page" where
  "addFeedItem now message s =
     (case analysis_feed s of
        None \<Rightarrow> s
      | Some feed \<Rightarrow>
          (let appended = feed @ [(now, message)]
           in s\<lparr>analysis_feed :=
                 Some (if querySelectorAll_length (feed_items_in s) appended > 50
                       then tl appended else appended)\<rparr>))"

definition updateStepIndicators :: "string option \<Rightarrow> rat \<Rightarrow> page \<Rightarrow> page" where
  "updateStepIndicators currentStepKey progress_now s =
     s\<lparr>step_items :=
         map (\<lambda>item.
                case stepKey item of
                  None \<Rightarrow> item
                | Some key \<Rightarrow>
                    (case map_of ANALYSIS_STEPS key of
                       None \<Rightarrow> item
                     | Some stepConfig \<Rightarrow>
                         if progress_now \<ge> progress stepConfig then item\<lparr>look := Completed\<rparr>
                         else if Some key = currentStepKey then item\<lparr>look := Active\<rparr>
                         else item\<lparr>look := Pending\<rparr>))
             (step_items s)\<rparr>"

definition updateProgress :: "int \<Rightarrow> rat \<Rightarrow> string \<Rightarrow> string option \<Rightarrow> page \<Rightarrow> page" where
  "updateProgress now percentage message step s =
     (let s1 = (case progress_fill s of
                  None \<Rightarrow> s
                | Some w \<Rightarrow> s\<lparr>progress_fill := Some (Percent percentage)\<rparr>);
          s2 = (case progress_percentage s1 of
                  None \<Rightarrow> s1
                | Some t \<Rightarrow> s1\<lparr>progress_percentage := Some (show_int (Math_round percentage) @ ''%'')\<rparr>);
          s3 = (if current_step_title s2 \<noteq> None \<and> message \<noteq> []
                then s2\<lparr>current_step_title := Some message\<rparr> else s2);
          s4 = (case step of
                  None \<Rightarrow> s3
                | Some key \<Rightarrow>
                    (case map_of ANALYSIS_STEPS key of
                       None \<Rightarrow> s3
                     | Some stepConfig \<Rightarrow>
                         if current_step_description s3 \<noteq> None
                         then s3\<lparr>current_step_description := Some (description stepConfig)\<rparr>
                         else s3));
          s5 = updateStepIndicators step percentage s4
      in addFeedItem now message s5)"

definition setupProgressMonitoring :: "int \<Rightarrow> page \<Rightarrow> page" where
  "setupProgressMonitoring now s =
     (if progress_fill s = None \<or> progress_percentage s = None then s
      else updateProgress now 0 ''Initializing analysis...'' None s)"

subsection \<open>Time display\<close>

text \<open>
  \<open>startTimeTracking\<close> stores the start instant (the parsed \<open>startTimeISO\<close>) and starts the
  one-second interval; \<open>time_tick\<close> is the interval's callback. Its local values
  \<open>elapsed\<close>, \<open>totalEstimated\<close> and \<open>remaining\<close> are functions of their own, so that
  statements can name them. An unset \<open>startTime\<close> (\<open>null\<close>) counts as 0 in \<open>now - startTime\<close>.
\<close>

definition startTimeTracking :: "int \<Rightarrow> page \<Rightarrow> page" where
  "startTimeTracking startTimeISO s =
     (let handle = Suc (timers_created s)
      in s\<lparr>startTime := Some startTimeISO, timers_created := handle,
            intervals := intervals s @ [handle], progressInterval := Some handle\<rparr>)"

definition elapsed :: "int \<Rightarrow> page \<Rightarrow> int" where
  "elapsed now s = (now - (case startTime s of None \<Rightarrow> 0 | Some t \<Rightarrow> t)) div 1000"

definition totalEstimated :: "int \<Rightarrow> rat \<Rightarrow> rat" where
  "totalEstimated elapsed_s currentProgress =
     to_double (to_double (of_int elapsed_s / currentProgress) * 100)"

definition remaining :: "int \<Rightarrow> rat \<Rightarrow> int" where
  "remaining elapsed_s currentProgress =
     max 0 \<lfloor>to_double (totalEstimated elapsed_s currentProgress - of_int elapsed_s)\<rfloor>"

definition time_tick :: "int \<Rightarrow> page \<Rightarrow> page" where
  "time_tick now s =
     (let s1 = (case elapsed_time s of
                  None \<Rightarrow> s
                | Some t \<Rightarrow> s\<lparr>elapsed_time := Some (formatTime (elapsed now s))\<rparr>)
      in case progress_fill s1 of
           None \<Rightarrow> s1
         | Some w \<Rightarrow>
             (case remaining_time s1 of
                None \<Rightarrow> s1
              | Some t \<Rightarrow>
                  (let currentProgress = parseFloat_width w
                   in if currentProgress > 0 \<and> currentProgress < 100
                      then
                        (let s2 = s1\<lparr>remaining_time :=
                                       Some (formatTime (remaining (elapsed now s) currentProgress))\<rparr>
                         in case completion_time s2 of
                              None \<Rightarrow> s2
                            | Some c \<Rightarrow>
                                s2\<lparr>completion_time :=
                                     Some (LocaleTime (now + remaining (elapsed now s) currentProgress * 1000))\<rparr>)
                      else s1)))"

subsection \<open>Errors and completion\<close>

text \<open>\<open>if (progressInterval) { clearInterval(progressInterval); progressInterval = null; }\<close>\<close>

definition clear_progressInterval :: "page \<Rightarrow> page" where
  "clear_progressInterval s =
     (case progressInterval s of
        None \<Rightarrow> s
      | Some handle \<Rightarrow> s\<lparr>intervals := removeAll handle (intervals s), progressInterval := None\<rparr>)"

definition showNotification :: "notice \<Rightarrow> string \<Rightarrow> page \<Rightarrow> page" where
  "showNotification message level s =
     (if notifier s then s\<lparr>notifications := notifications s @ [(message, level)]\<rparr> else s)"

definition showError :: "int \<Rightarrow> string \<Rightarrow> page \<Rightarrow> page" where
  "showError now message s =
     (let s1 = (case error_section_hidden s of
                  None \<Rightarrow> s
                | Some h \<Rightarrow> s\<lparr>error_section_hidden := Some False\<rparr>);
          s2 = (case error_message s1 of
                  None \<Rightarrow> s1
                | Some t \<Rightarrow> s1\<lparr>error_message := Some message\<rparr>);
          s3 = clear_progressInterval s2;
          s4 = addFeedItem now (''ERROR: '' @ message) s3
      in showNotification (Plain message) ''error'' s4)"

definition animateCompletion :: "page \<Rightarrow> page" where
  "animateCompletion s = s\<lparr>completion_animations := completion_animations s + 1\<rparr>"

text \<open>\<open>handleAnalysisComplete(data)\<close> reads \<open>data.report_word_count\<close> only.\<close>

definition handleAnalysisComplete :: "int \<Rightarrow> nat option \<Rightarrow> page \<Rightarrow> page" where
  "handleAnalysisComplete now report_word_count s =
     (let s1 = clear_progressInterval s;
          s2 = updateProgress now 100 ''Analysis completed successfully!'' None s1;
          s3 = showNotification (ReportWords report_word_count) ''success'' s2;
          s4 = (case view_report s3 of
                  None \<Rightarrow> s3
                | Some b \<Rightarrow>
                    s3\<lparr>view_report := Some (b\<lparr>displayed := True,
                                                 click_listeners := click_listeners b + 1\<rparr>)\<rparr>);
          s5 = addFeedItem now ''Analysis completed successfully! Report is ready for viewing.'' s4
      in animateCompletion s5)"

subsection \<open>The polling loop\<close>

text \<open>
  What \<open>await fetch(...)\<close> followed by \<open>await response.json()\<close> yields: a rejection (or any
  other exception in the \<open>try\<close> block, which all end in the \<open>catch\<close>), or the decoded
  status object.
\<close>

record status_data =
  data_status :: string
  data_progress :: "rat option"
  data_current_step :: "string option"
  data_error_message :: "string option"
  data_report_word_count :: "nat option"

datatype fetch_result = Rejected | Response status_data

text \<open>
  A call of \<open>poll\<close> runs up to its first \<open>await\<close>: the request for the current \<open>analysisId\<close>
  is issued. \<open>poll_continue\<close> is the rest of the body, run when the response is there.
\<close>

definition poll :: "page \<Rightarrow> page" where
  "poll s = s\<lparr>requests := requests s @ [analysisId s], in_flight := in_flight s + 1\<rparr>"

definition startProgressPolling :: "page \<Rightarrow> page" where
  "startProgressPolling s = poll s"

definition poll_continue :: "int \<Rightarrow> fetch_result \<Rightarrow> page \<Rightarrow> page" where
  "poll_continue now r s =
     (case r of
        Rejected \<Rightarrow> showError now ''Failed to get analysis status'' s
      | Response data \<Rightarrow>
          if data_status data = ''completed''
          then handleAnalysisComplete now (data_report_word_count data) s
          else if data_status data = ''error''
          then showError now (case data_error_message data of
                                None \<Rightarrow> ''Analysis failed''
                              | Some t \<Rightarrow> if t = [] then ''Analysis failed'' else t) s
          else
            (let s1 = (if data_status data = ''processing''
                       then updateProgress now
                              (case data_progress data of None \<Rightarrow> 0 | Some p \<Rightarrow> p)
                              (case data_current_step data of
                                 None \<Rightarrow> ''Processing...''
                               | Some t \<Rightarrow> if t = [] then ''Processing...'' else t)
                              (getCurrentStepKey (data_current_step data)) s
                       else s)
             in s1\<lparr>poll_timers := poll_timers s1 + 1\<rparr>))"

text \<open>
  The two things that can happen to a polling loop: its timer fires (and \<open>poll\<close> runs), or
  the response to its request arrives. Neither can happen unless a timer is pending or a
  request is in flight: then the result is \<open>None\<close>.
\<close>

datatype poll_event = TimerFires | ResponseArrives fetch_result

definition poll_step :: "int \<Rightarrow> poll_event \<Rightarrow> page \<Rightarrow> page option" where
  "poll_step now ev s =
     (case ev of
        TimerFires \<Rightarrow>
          if poll_timers s = 0 then None
          else Some (poll (s\<lparr>poll_timers := poll_timers s - 1\<rparr>))
      | ResponseArrives r \<Rightarrow>
          if in_flight s = 0 then None
          else Some (poll_continue now r (s\<lparr>in_flight := in_flight s - 1\<rparr>)))"

subsection \<open>Start, restart and the page's own socket\<close>

definition initializeAnalysisTracking :: "int \<Rightarrow> string \<Rightarrow> page \<Rightarrow> page" where
  "initializeAnalysisTracking now id' s =
     startProgressPolling (setupProgressMonitoring now (s\<lparr>analysisId := Some id'\<rparr>))"

definition restartAnalysis :: "int \<Rightarrow> page \<Rightarrow> page" where
  "restartAnalysis now s =
     (let s1 = (case progress_fill s of
                  None \<Rightarrow> s
                | Some w \<Rightarrow> s\<lparr>progress_fill := Some (Percent 0)\<rparr>);
          s2 = (case progress_percentage s1 of
                  None \<Rightarrow> s1
                | Some t \<Rightarrow> s1\<lparr>progress_percentage := Some ''0%''\<rparr>);
          s3 = s2\<lparr>step_items := map (\<lambda>item. item\<lparr>look := Pending\<rparr>) (step_items s2)\<rparr>;
          s4 = (case analysis_feed s3 of
                  None \<Rightarrow> s3
                | Some feed \<Rightarrow> s3\<lparr>analysis_feed := Some [(now, ''Analysis restarted'')]\<rparr>);
          s5 = s4\<lparr>startTime := Some now\<rparr>;
          s6 = startProgressPolling s5
      in showNotification (Plain ''Analysis restarted'') ''info'' s6)"

text \<open>The click handler of the retry button (\<open>setupErrorHandling\<close>).\<close>

definition retry_click :: "int \<Rightarrow> page \<Rightarrow> page" where
  "retry_click now s =
     restartAnalysis now
       (case error_section_hidden s of
          None \<Rightarrow> s
        | Some h \<Rightarrow> s\<lparr>error_section_hidden := Some True\<rparr>)"

text \<open>
  \<open>initializeWebSocket(id)\<close> of analysis.js, where \<open>io\<close> is defined and returns a socket, and
  the listeners it attaches. A progress event of the push channel carries
  \<open>analysis_id\<close>, \<open>progress\<close>, \<open>current_step\<close> and \<open>step\<close>.
\<close>

definition initializeWebSocket :: "bool \<Rightarrow> string \<Rightarrow> page \<Rightarrow> page" where
  "initializeWebSocket io_defined id' s =
     (let s1 = s\<lparr>analysisId := Some id'\<rparr>
      in if io_defined
         then s1\<lparr>analysisSocket := Some \<lparr>reconnectionAttempts = None, emitted = [], connect_calls = 0\<rparr>\<rparr>
         else s1)"

record progress_data =
  push_analysis_id :: string
  push_progress :: rat
  push_current_step :: string
  push_step :: "string option"

definition socket_connect :: "page \<Rightarrow> page" where
  "socket_connect s =
     (case analysisSocket s of
        None \<Rightarrow> s
      | Some sock \<Rightarrow>
          s\<lparr>analysisSocket :=
               Some (socket_emit ''join_analysis''
                       (JObj [(''analysis_id'', case analysisId s of None \<Rightarrow> JNull | Some id' \<Rightarrow> JStr id')])
                       sock)\<rparr>)"

definition socket_analysis_progress :: "int \<Rightarrow> progress_data \<Rightarrow> page \<Rightarrow> page" where
  "socket_analysis_progress now data s =
     (if Some (push_analysis_id data) = analysisId s
      then updateProgress now (push_progress data) (push_current_step data) (push_step data) s
      else s)"

definition socket_analysis_complete :: "int \<Rightarrow> string \<Rightarrow> nat option \<Rightarrow> page \<Rightarrow> page" where
  "socket_analysis_complete now analysis_id report_word_count s =
     (if Some analysis_id = analysisId s then handleAnalysisComplete now report_word_count s else s)"

definition socket_analysis_error :: "int \<Rightarrow> string \<Rightarrow> string \<Rightarrow> page \<Rightarrow> page" where
  "socket_analysis_error now analysis_id error_text s =
     (if Some analysis_id = analysisId s then showError now error_text s else s)"

subsection \<open>Runs\<close>

text \<open>
  \<open>progress_trace\<close> runs a sequence of steps of the page (calls of \<open>updateProgress\<close>, of a
  listener, of the polling loop) and lists what the progress bar and its label show after
  each one. \<open>shown\<close> reads the bar of such an entry as the tick does:
  \<open>parseFloat(width) || 0\<close>.
\<close>

fun progress_trace :: "(page \<Rightarrow> page) list \<Rightarrow> page \<Rightarrow> (css_width option \<times> string option) list" where
  "progress_trace [] s = []"
| "progress_trace (step # steps) s =
     (progress_fill (step s), progress_percentage (step s)) # progress_trace steps (step s)"

definition shown :: "css_width option \<times> string option \<Rightarrow> rat" where
  "shown entry = (case fst entry of None \<Rightarrow> 0 | Some w \<Rightarrow> parseFloat_width w)"

text \<open>What the bar and the label show for a percentage.\<close>

definition display_of :: "rat \<Rightarrow> css_width option \<times> string option" where
  "display_of percentage = (Some (Percent percentage), Some (show_int (Math_round percentage) @ ''%''))"

text \<open>A call of \<open>updateProgress\<close> with its arguments: instant, percentage, message, step.\<close>

type_synonym progress_call = "int \<times> rat \<times> string \<times> string option"

definition percentage_of :: "progress_call \<Rightarrow> rat" where
  "percentage_of c = fst (snd c)"

definition call_updateProgress :: "progress_call \<Rightarrow> page \<Rightarrow> page" where
  "call_updateProgress c = updateProgress (fst c) (fst (snd c)) (fst (snd (snd c))) (snd (snd (snd c)))"


text \<open>The response of the polling loop arrives, if one is awaited.\<close>

definition response_arrives :: "int \<Rightarrow> fetch_result \<Rightarrow> page \<Rightarrow> page" where
  "response_arrives now r s =
     (case poll_step now (ResponseArrives r) s of None \<Rightarrow> s | Some s' \<Rightarrow> s')"

text \<open>
  The parser on the texts of the examples below: the text \<open><div class=feed-item></div>\<close>
  is one element of class \<open>feed-item\<close>; the other texts used carry no markup.
\<close>

definition parse_example :: "string \<Rightarrow> nat" where
  "parse_example t = (if t = ''<div class=feed-item></div>'' then 1 else 0)"

text \<open>A page as it is when the script has loaded, with every element the code looks up.\<close>

definition fresh_page :: page where
  "fresh_page =
     \<lparr> analysisSocket = None, analysisId = None, startTime = None, progressInterval = None,
       intervals = [], timers_created = 0,
       progress_fill = Some Unset, progress_percentage = Some ''0%'',
       current_step_title = Some [], current_step_description = Some [],
       step_items = map (\<lambda>(key, config). \<lparr>stepKey = Some key, look = Pending\<rparr>) ANALYSIS_STEPS,
       analysis_feed = Some [], error_section_hidden = Some True, error_message = Some [],
       elapsed_time = Some ''00:00'', remaining_time = Some ''--:--'',
       completion_time = Some (Text ''--:--''), view_report = Some \<lparr>displayed = False, click_listeners = 0\<rparr>,
       notifier = True, notifications = [], completion_animations = 0,
       requests = [], in_flight = 0, poll_timers = 0, feed_items_in = parse_example \<rparr>"

section \<open>Observations and example states\<close>

text \<open>The message \<open>join_analysis\<close> for a room, and everything sent on the manager's socket.\<close>

definition join_message :: "string \<Rightarrow> string \<times> jsval" where
  "join_message room = (''join_analysis'', JObj [(''analysis_id'', JStr room)])"

definition sent :: "'a ws_manager_scheme \<Rightarrow> (string \<times> jsval) list" where
  "sent m = (case socket m of None \<Rightarrow> [] | Some s \<Rightarrow> emitted s)"

text \<open>
  Three kinds of handlers: one that returns and touches nothing; one where the handler
  registered as number 1 throws; and the "once" idiom, a handler that unregisters itself
  from the event when it is called.
\<close>

definition silent :: "'a behaviour" where
  "silent h d m = (m, Returned)"

definition second_throws :: "'a behaviour" where
  "second_throws h d m = (m, if h = 1 then Threw else Returned)"

definition once :: "string \<Rightarrow> 'a behaviour" where
  "once event h d m = (off event h m, Returned)"

text \<open>A manager whose socket exists and has not connected yet; one that is connected and
  has joined a room.\<close>

definition initialized :: ws_manager where
  "initialized = fst (initialize IoAvailable constructor)"

definition joined :: ws_manager where
  "joined = fst (joinAnalysis ''job-1'' (initialized\<lparr>isConnected := True\<rparr>))"

text \<open>
  The manager after \<open>initializeWebSocket('job-1')\<close> of websocket.js and the first connect:
  the handler, number 0, has joined the room. And the manager after a \<open>disconnect()\<close>, a
  \<open>reconnect()\<close> and the next connect: the handler has joined the room again, on the new
  socket.
\<close>

definition subscribed :: ws_manager where
  "subscribed =
     \<lparr> socket = Some \<lparr>reconnectionAttempts = Some 5, emitted = [join_message ''job-1''],
                         connect_calls = 0\<rparr>,
       reconnectAttempts = 0, maxReconnectAttempts = 5, reconnectInterval = 5000,
       isConnected = True, eventHandlers = [''ws_connected'' \<mapsto> [0]],
       analysisRooms = [''job-1''],
       statusShown = [(''Connected to server'', ''success'')] \<rparr>"

definition resubscribed :: ws_manager where
  "resubscribed =
     \<lparr> socket = Some \<lparr>reconnectionAttempts = Some 5, emitted = [join_message ''job-1''],
                         connect_calls = 0\<rparr>,
       reconnectAttempts = 0, maxReconnectAttempts = 5, reconnectInterval = 5000,
       isConnected = True, eventHandlers = [''ws_connected'' \<mapsto> [0]],
       analysisRooms = [''job-1''],
       statusShown = [(''Connected to server'', ''success''),
                      (''Disconnected from server'', ''warning''),
                      (''Connected to server'', ''success'')] \<rparr>"

text \<open>
  A page that tracks the job \<open>job-1\<close> by polling; the same page with its own socket
  connected as well; and that page after the push channel has reported an error.
\<close>

definition tracked :: page where
  "tracked = initializeAnalysisTracking 0 ''job-1'' fresh_page"

definition tracked_both :: page where
  "tracked_both = socket_connect (initializeWebSocket True ''job-1'' tracked)"

definition failed_page :: page where
  "failed_page = socket_analysis_error 5000 ''job-1'' ''timeout'' tracked_both"

definition processing :: "rat \<Rightarrow> string \<Rightarrow> status_data" where
  "processing p label =
     \<lparr> data_status = ''processing'', data_progress = Some p, data_current_step = Some label,
       data_error_message = None, data_report_word_count = None \<rparr>"

definition completed :: "nat \<Rightarrow> status_data" where
  "completed n =
     \<lparr> data_status = ''completed'', data_progress = None, data_current_step = None,
       data_error_message = None, data_report_word_count = Some n \<rparr>"

definition pushed :: "rat \<Rightarrow> string \<Rightarrow> progress_data" where
  "pushed p label =
     \<lparr> push_analysis_id = ''job-1'', push_progress = p, push_current_step = label,
       push_step = getCurrentStepKey (Some label) \<rparr>"

section \<open>Properties of the handler registry\<close>

lemma indexOf_None_iff: "indexOf xs h = None \<longleftrightarrow> h \<notin> set xs"
  by (induction xs) auto

lemma splice1_indexOf: "indexOf xs h = Some i \<Longrightarrow> splice1 i xs = remove1 h xs"
proof (induction xs arbitrary: i)
  case Nil
  then show ?case by simp
next
  case (Cons x xs)
  show ?case
  proof (cases "x = h")
    case True
    with Cons.prems show ?thesis by (simp add: splice1_def)
  next
    case False
    with Cons.prems obtain j where j: "indexOf xs h = Some j" "i = Suc j"
      by auto
    from Cons.IH [OF j(1)] False j(2) show ?thesis
      by (simp add: splice1_def)
  qed
qed

lemma handlers_of_off: "handlers_of (off event handler m) event = remove1 handler (handlers_of m event)"
proof (cases "eventHandlers m event")
  case None
  then show ?thesis by (simp add: off_def handlers_of_def)
next
  case (Some handlers)
  show ?thesis
  proof (cases "indexOf handlers handler")
    case None
    then have "handler \<notin> set handlers" by (simp add: indexOf_None_iff)
    with Some None show ?thesis
      by (simp add: off_def handlers_of_def remove1_idem)
  next
    case (Some index)
    with \<open>eventHandlers m event = Some handlers\<close> show ?thesis
      by (simp add: off_def handlers_of_def splice1_indexOf)
  qed
qed

lemma handlers_of_on: "handlers_of (on event handler m) event = handlers_of m event @ [handler]"
  by (cases "eventHandlers m event") (simp_all add: on_def handlers_of_def)

text \<open>
  C10. \<open>off\<close> deletes exactly the earliest registration of the handler, if there is one, and
  nothing else; so registering a handler and removing it again leaves the multiset of
  handlers registered for that event as it was.
\<close>

theorem off_removes_earliest_on_off_mset:
  "handlers_of (off event handler m) event = remove1 handler (handlers_of m event)
   \<and> length (handlers_of m event) \<le> Suc (length (handlers_of (off event handler m) event))
   \<and> mset (handlers_of (off event handler (on event handler m)) event) = mset (handlers_of m event)"
proof -
  have a: "handlers_of (off event handler m) event = remove1 handler (handlers_of m event)"
    by (rule handlers_of_off)
  have b: "length (handlers_of m event) \<le> Suc (length (handlers_of (off event handler m) event))"
    unfolding a by (auto simp: length_remove1)
  have c: "mset (handlers_of (off event handler (on event handler m)) event) = mset (handlers_of m event)"
    by (simp add: handlers_of_off handlers_of_on)
  from a b c show ?thesis by simp
qed

section \<open>Fan-out\<close>

lemma forEach_handlers_stable:
  assumes frame: "\<And>h d x. handlers_of (fst (beh h d x)) event = handlers_of x event"
  shows "k + n = length (handlers_of m event) \<Longrightarrow>
    map fst (snd (forEach_handlers beh event data k n m)) = drop k (handlers_of m event)
    \<and> handlers_of (fst (forEach_handlers beh event data k n m)) event = handlers_of m event"
proof (induction n arbitrary: k m)
  case 0
  then show ?case by simp
next
  case (Suc n)
  let ?hs = "handlers_of m event"
  let ?m1 = "fst (beh (?hs ! k) data m)"
  from Suc.prems have k: "k < length ?hs" by simp
  have same: "handlers_of ?m1 event = ?hs" by (rule frame)
  from Suc.prems have "Suc k + n = length (handlers_of ?m1 event)" by (simp add: same)
  from Suc.IH [OF this]
  have IH: "map fst (snd (forEach_handlers beh event data (Suc k) n ?m1)) = drop (Suc k) ?hs"
    "handlers_of (fst (forEach_handlers beh event data (Suc k) n ?m1)) event = ?hs"
    by (simp_all add: same)
  from k IH show ?case
    by (simp add: Let_def Cons_nth_drop_Suc)
qed

text \<open>
  C8, as the code has it. When no handler changes the list of handlers registered for the
  event while the event is dispatched, \<open>triggerEvent\<close> calls every registered handler, once
  each and in registration order, whether or not some of them throw (the list of calls
  made is the list of registered handlers; a throw is caught and recorded, and the next
  handler runs).
\<close>

theorem triggerEvent_calls_all_in_order:
  assumes "\<And>h d x. handlers_of (fst (beh h d x)) event = handlers_of x event"
  shows "map fst (snd (triggerEvent beh event data m)) = handlers_of m event"
proof (cases "eventHandlers m event")
  case None
  then show ?thesis by (simp add: triggerEvent_def handlers_of_def)
next
  case (Some handlers)
  then have hs: "handlers_of m event = handlers" by (simp add: handlers_of_def)
  then have "0 + length handlers = length (handlers_of m event)" by simp
  from forEach_handlers_stable [where beh = beh and data = data, OF assms this] Some hs
  show ?thesis by (simp add: triggerEvent_def)
qed

text \<open>
  Three handlers, the second of which throws: all three are called, in the order of their
  registration.
\<close>

theorem triggerEvent_calls_all_in_order_witness:
  "snd (triggerEvent second_throws ''analysis_progress'' JNull
          (on ''analysis_progress'' 2 (on ''analysis_progress'' 1 (on ''analysis_progress'' 0 constructor))))
     = [(0, Returned), (1, Threw), (2, Returned)]
   \<and> map fst (snd (triggerEvent second_throws ''analysis_progress'' JNull
          (on ''analysis_progress'' 2 (on ''analysis_progress'' 1 (on ''analysis_progress'' 0 constructor)))))
     = [0, 1, 2]"
proof -
  let ?m = "on ''analysis_progress'' 2 (on ''analysis_progress'' 1 (on ''analysis_progress'' 0 constructor))"
  have frame: "\<And>h d (x :: ws_manager).
      handlers_of (fst (second_throws h d x)) ''analysis_progress'' = handlers_of x ''analysis_progress''"
    by (simp add: second_throws_def)
  have hs: "handlers_of ?m ''analysis_progress'' = [0, 1, 2]"
    by (simp add: handlers_of_on) (simp add: handlers_of_def constructor_def)
  have log: "snd (triggerEvent second_throws ''analysis_progress'' JNull ?m)
       = [(0, Returned), (1, Threw), (2, Returned)]"
    by (simp add: triggerEvent_def on_def handlers_of_def constructor_def second_throws_def
          Let_def numeral_2_eq_2)
  from triggerEvent_calls_all_in_order [where beh = second_throws and m = ?m and data = JNull, OF frame]
  have "map fst (snd (triggerEvent second_throws ''analysis_progress'' JNull ?m)) = [0, 1, 2]"
    by (simp only: hs)
  with log show ?thesis by simp
qed

text \<open>
  C8 as stated fails. Two handlers are registered and the first unregisters itself when
  called: \<open>forEach\<close> then finds nothing at index 1 of the shortened array, and the second
  handler is never called.
\<close>

theorem triggerEvent_skips_after_off:
  "handlers_of (on ''ws_connected'' 1 (on ''ws_connected'' 0 constructor)) ''ws_connected'' = [0, 1]
   \<and> snd (triggerEvent (once ''ws_connected'') ''ws_connected'' JNull
            (on ''ws_connected'' 1 (on ''ws_connected'' 0 constructor)))
      = [(0, Returned)]"
  by (simp add: triggerEvent_def on_def off_def splice1_def handlers_of_def constructor_def
        once_def Let_def numeral_2_eq_2)

section \<open>Rooms and the connection lifecycle\<close>

lemma emitted_fold_socket_emit:
  "emitted (fold (\<lambda>i. socket_emit ev (f i)) xs s) = emitted s @ map (\<lambda>i. (ev, f i)) xs"
  by (induction xs arbitrary: s) (simp_all add: socket_emit_def)

lemma rejoinAnalysisRooms_replays:
  "socket m = Some s \<Longrightarrow>
   \<exists>m'. rejoinAnalysisRooms m = Inr m' \<and> sent m' = emitted s @ map join_message (analysisRooms m)
        \<and> analysisRooms m' = analysisRooms m"
  by (cases "analysisRooms m")
     (simp_all add: rejoinAnalysisRooms_def sent_def emitted_fold_socket_emit socket_emit_def
        join_message_def [abs_def])

text \<open>
  C2, as the code has it. While the manager has no socket or is not connected,
  \<open>joinAnalysis\<close> sends nothing, leaves the retained set of rooms as it was and returns
  \<open>false\<close>; the identifier is not retained. What \<open>rejoinAnalysisRooms\<close> replays on the next
  connect is therefore the set of rooms retained before the call.
\<close>

theorem joinAnalysis_disconnected_is_noop:
  assumes "socket m = None \<or> \<not> isConnected m"
  shows "joinAnalysis room m = (m, False)
     \<and> (\<forall>s. socket m = Some s \<longrightarrow>
           (\<exists>m'. rejoinAnalysisRooms (fst (joinAnalysis room m)) = Inr m'
                 \<and> sent m' = emitted s @ map join_message (analysisRooms m)))"
proof -
  have a: "joinAnalysis room m = (m, False)"
    using assms by (auto simp: joinAnalysis_def split: option.splits)
  show ?thesis unfolding a using rejoinAnalysisRooms_replays [of m] by auto
qed

theorem joinAnalysis_disconnected_is_noop_witness:
  "joinAnalysis ''job-1'' initialized = (initialized, False)
   \<and> socket initialized \<noteq> None \<and> \<not> isConnected initialized"
proof -
  have h: "socket initialized = None \<or> \<not> isConnected initialized"
    by (simp add: initialized_def initialize_def constructor_def)
  have "socket initialized \<noteq> None \<and> \<not> isConnected initialized"
    by (simp add: initialized_def initialize_def constructor_def)
  with joinAnalysis_disconnected_is_noop [OF h, of "''job-1''"] show ?thesis by simp
qed

text \<open>
  C2 as stated fails. The manager has a socket that has not connected yet; after
  \<open>joinAnalysis\<close> the retained set is still empty, and the connect event that follows
  sends no \<open>join_analysis\<close>.
\<close>

theorem joinAnalysis_disconnected_not_retained:
  "analysisRooms (fst (joinAnalysis ''job-1'' initialized)) = []
   \<and> sent (fst (joinAnalysis ''job-1'' initialized)) = []
   \<and> on_connect silent (fst (joinAnalysis ''job-1'' initialized))
       = Inr (\<lparr> socket = Some \<lparr>reconnectionAttempts = Some 5, emitted = [], connect_calls = 0\<rparr>,
                reconnectAttempts = 0, maxReconnectAttempts = 5, reconnectInterval = 5000,
                isConnected = True, eventHandlers = Map.empty, analysisRooms = [],
                statusShown = [(''Connected to server'', ''success'')] \<rparr>, [])"
  by (simp add: joinAnalysis_def initialized_def initialize_def constructor_def on_connect_def
        showConnectionStatus_def rejoinAnalysisRooms_def triggerEvent_def sent_def Let_def)

lemma on_reconnect_error_fields:
  "reconnectAttempts (on_reconnect_error m) = reconnectAttempts m + 1"
  "maxReconnectAttempts (on_reconnect_error m) = maxReconnectAttempts m"
  "socket (on_reconnect_error m) = socket m"
  "failed_notices (on_reconnect_error m)
     = failed_notices m + (if reconnectAttempts m + 1 \<ge> maxReconnectAttempts m then 1 else 0)"
  by (simp_all add: on_reconnect_error_def showConnectionStatus_def failed_notices_def Let_def)

lemma on_reconnect_error_funpow:
  "reconnectAttempts ((on_reconnect_error ^^ n) m) = reconnectAttempts m + n
   \<and> maxReconnectAttempts ((on_reconnect_error ^^ n) m) = maxReconnectAttempts m
   \<and> socket ((on_reconnect_error ^^ n) m) = socket m
   \<and> failed_notices ((on_reconnect_error ^^ n) m)
       = failed_notices m + ((reconnectAttempts m + n) - max (reconnectAttempts m) (maxReconnectAttempts m - 1))"
proof (induction n)
  case 0
  show ?case by simp
next
  case (Suc n)
  then show ?case
    by (simp add: on_reconnect_error_fields) arith
qed

text \<open>
  C5, as the code has it. The listener for \<open>reconnect_error\<close> counts the events and shows
  "Failed to reconnect" at every event from the one that brings the count to
  \<open>maxReconnectAttempts\<close> on; it never touches the socket, so it stops nothing. The bound
  on the attempts is the option \<open>reconnectionAttempts = 5\<close> handed to the transport. After
  \<open>n\<close> such events since the manager was initialised the notice has been shown \<open>n - 4\<close>
  times: never for \<open>n < 5\<close>, exactly once for \<open>n = 5\<close>, and once more for every further
  event.
\<close>

theorem reconnect_error_notices:
  "reconnectAttempts ((on_reconnect_error ^^ n) m) = reconnectAttempts m + n
   \<and> socket ((on_reconnect_error ^^ n) m) = socket m
   \<and> failed_notices ((on_reconnect_error ^^ n) m)
       = failed_notices m + ((reconnectAttempts m + n) - max (reconnectAttempts m) (maxReconnectAttempts m - 1))
   \<and> failed_notices ((on_reconnect_error ^^ n) initialized) = n - 4
   \<and> map_option reconnectionAttempts (socket initialized) = Some (Some 5)"
proof -
  have i: "reconnectAttempts initialized = 0" "maxReconnectAttempts initialized = 5"
    "failed_notices initialized = 0" "map_option reconnectionAttempts (socket initialized) = Some (Some 5)"
    by (simp_all add: initialized_def initialize_def constructor_def failed_notices_def)
  from on_reconnect_error_funpow [of n m] on_reconnect_error_funpow [of n initialized] i
  show ?thesis by simp
qed

text \<open>
  C5 as stated fails. Six \<open>reconnect_error\<close> events after initialisation: the count goes
  past the maximum and the notice has been shown twice.
\<close>

theorem reconnect_error_notice_repeats:
  "reconnectAttempts ((on_reconnect_error ^^ 6) initialized) = 6
   \<and> maxReconnectAttempts ((on_reconnect_error ^^ 6) initialized) = 5
   \<and> failed_notices ((on_reconnect_error ^^ 6) initialized) = 2"
  by (simp add: failed_notices_def on_reconnect_error_def initialized_def initialize_def
        constructor_def showConnectionStatus_def eval_nat_numeral Let_def)

text \<open>What no handler changes, \<open>triggerEvent\<close> does not change.\<close>

lemma triggerEvent_keeps:
  assumes "\<And>h d x. f (fst (beh h d x)) = f x"
  shows "f (fst (triggerEvent beh event data m)) = f m"
proof -
  have "f (fst (forEach_handlers beh event data k n x)) = f x" for k n x
    by (induction n arbitrary: k x) (simp_all add: Let_def assms)
  then show ?thesis by (simp add: triggerEvent_def split: option.splits)
qed

text \<open>
  The manager's invariant holds for the constructed manager and is kept by the manager's
  own operations.
\<close>

lemma manager_inv_kept:
  "manager_inv constructor"
  "manager_inv m \<Longrightarrow> manager_inv (fst (initialize env m))"
  "manager_inv m \<Longrightarrow> manager_inv (fst (joinAnalysis i m))"
  "manager_inv m \<Longrightarrow> manager_inv (fst (leaveAnalysis i m))"
  "manager_inv m \<Longrightarrow> manager_inv (fst (disconnect beh m))"
  "manager_inv m \<Longrightarrow> manager_inv (reconnect env m)"
  "manager_inv m \<Longrightarrow> manager_inv (on event h m)"
  "manager_inv m \<Longrightarrow> manager_inv (off event h m)"
  "manager_inv m \<Longrightarrow> manager_inv (on_reconnect_error m)"
  by (auto simp: manager_inv_def constructor_def initialize_def joinAnalysis_def leaveAnalysis_def
        disconnect_def reconnect_def on_def off_def on_reconnect_error_def showConnectionStatus_def
        Let_def split: option.splits io_env.splits)

lemma disconnect_fields:
  assumes "manager_inv m"
  shows "analysisRooms (fst (disconnect beh m)) = []" "socket (fst (disconnect beh m)) = None"
    "\<not> isConnected (fst (disconnect beh m))"
  using assms by (auto simp: disconnect_def manager_inv_def Let_def split: option.splits)

text \<open>
  C9, as the code has it. After \<open>disconnect()\<close> the retained set of rooms is empty, the
  socket is gone and the manager is marked disconnected. After a \<open>reconnect()\<close> that
  follows, nothing has been sent and no room is retained, and at the next connect the
  manager's own replay, \<open>rejoinAnalysisRooms\<close>, sends nothing: the listener hands the state
  to the handlers for \<open>ws_connected\<close> with no room in it. A room is joined again at that
  connect only by such a handler: when the handlers leave the rooms and the socket alone,
  no room is retained and nothing has been sent after the connect. \<open>disconnect()\<close> leaves
  the handlers registered. The listener for the transport's own \<open>disconnect\<close> event keeps
  the rooms (handlers that leave the rooms alone assumed). The manager is one the
  invariant above holds for (without a socket \<open>disconnect()\<close> does nothing, and then there
  are no rooms to clear).
\<close>

theorem disconnect_clears_rooms:
  assumes "manager_inv m"
  shows "analysisRooms (fst (disconnect beh m)) = []
     \<and> socket (fst (disconnect beh m)) = None
     \<and> \<not> isConnected (fst (disconnect beh m))
     \<and> eventHandlers (fst (disconnect silent m)) = eventHandlers m
     \<and> analysisRooms (reconnect env (fst (disconnect beh m))) = []
     \<and> sent (reconnect env (fst (disconnect beh m))) = []
     \<and> on_connect beh (reconnect env (fst (disconnect beh m)))
         = Inr (triggerEvent beh ''ws_connected'' JNull
                  (showConnectionStatus ''Connected to server'' ''success''
                     ((reconnect env (fst (disconnect beh m)))\<lparr>isConnected := True, reconnectAttempts := 0\<rparr>)))
     \<and> ((\<forall>h d x. analysisRooms (fst (beh h d x)) = analysisRooms x \<and> socket (fst (beh h d x)) = socket x) \<longrightarrow>
          (\<exists>r. on_connect beh (reconnect env (fst (disconnect beh m))) = Inr r
               \<and> analysisRooms (fst r) = [] \<and> sent (fst r) = []))
     \<and> ((\<forall>h d x. analysisRooms (fst (beh h d x)) = analysisRooms x) \<longrightarrow>
          analysisRooms (fst (on_disconnect beh reason m)) = analysisRooms m)"
proof -
  let ?d = "fst (disconnect beh m)"
  let ?r = "reconnect env ?d"
  let ?c = "showConnectionStatus ''Connected to server'' ''success''
              (?r\<lparr>isConnected := True, reconnectAttempts := 0\<rparr>)"
  note d = disconnect_fields [OF assms, of beh]
  have h: "eventHandlers (fst (disconnect silent m)) = eventHandlers m"
    by (simp add: disconnect_def on_disconnect_def triggerEvent_keeps [of eventHandlers silent]
          silent_def showConnectionStatus_def Let_def split: option.splits)
  have r: "analysisRooms ?r = []" "sent ?r = []"
    using d by (cases env; simp add: reconnect_def initialize_def sent_def)+
  have c: "analysisRooms ?c = []" "sent ?c = []"
    using r by (simp_all add: showConnectionStatus_def sent_def)
  have j: "on_connect beh ?r = Inr (triggerEvent beh ''ws_connected'' JNull ?c)"
    using c(1) by (simp add: on_connect_def rejoinAnalysisRooms_def Let_def)
  have quiet: "\<exists>r. on_connect beh ?r = Inr r \<and> analysisRooms (fst r) = [] \<and> sent (fst r) = []"
    if frame: "\<forall>h d x. analysisRooms (fst (beh h d x)) = analysisRooms x \<and> socket (fst (beh h d x)) = socket x"
  proof -
    from frame have f1: "\<And>h d x. analysisRooms (fst (beh h d x)) = analysisRooms x"
      and f2: "\<And>h d x. sent (fst (beh h d x)) = sent x"
      by (simp_all add: sent_def)
    from triggerEvent_keeps [of analysisRooms beh, OF f1] triggerEvent_keeps [of sent beh, OF f2] c
    have "analysisRooms (fst (triggerEvent beh ''ws_connected'' JNull ?c)) = []"
      "sent (fst (triggerEvent beh ''ws_connected'' JNull ?c)) = []"
      by simp_all
    with j show ?thesis by blast
  qed
  have k: "analysisRooms (fst (on_disconnect beh reason m)) = analysisRooms m"
    if frame: "\<forall>h d x. analysisRooms (fst (beh h d x)) = analysisRooms x"
  proof -
    from frame have f1: "\<And>h d x. analysisRooms (fst (beh h d x)) = analysisRooms x" by simp
    show ?thesis
      by (simp add: on_disconnect_def Let_def triggerEvent_keeps [of analysisRooms beh, OF f1]
            showConnectionStatus_def)
  qed
  from d h r j quiet k show ?thesis by blast
qed

text \<open>
  A connected manager that has joined \<open>job-1\<close>, with handlers that do nothing: the
  transport's disconnect keeps the room, the manual one drops it, and after the reconnect
  and the connect no room is retained and the new socket has sent nothing.
\<close>

theorem disconnect_clears_rooms_witness:
  "analysisRooms joined = [''job-1'']
   \<and> analysisRooms (fst (on_disconnect silent ''transport close'' joined)) = [''job-1'']
   \<and> analysisRooms (fst (disconnect silent joined)) = []
   \<and> socket (fst (disconnect silent joined)) = None
   \<and> socket (reconnect IoAvailable (fst (disconnect silent joined))) \<noteq> None
   \<and> sent (reconnect IoAvailable (fst (disconnect silent joined))) = []
   \<and> (\<exists>r. on_connect silent (reconnect IoAvailable (fst (disconnect silent joined))) = Inr r
          \<and> analysisRooms (fst r) = [] \<and> sent (fst r) = [])"
proof -
  have inv: "manager_inv joined"
    by (simp add: manager_inv_def joined_def joinAnalysis_def initialized_def initialize_def constructor_def)
  have frame: "\<forall>h d (x :: ws_manager).
      analysisRooms (fst (silent h d x)) = analysisRooms x \<and> socket (fst (silent h d x)) = socket x"
    by (simp add: silent_def)
  then have frame': "\<forall>h d (x :: ws_manager). analysisRooms (fst (silent h d x)) = analysisRooms x"
    by simp
  have rooms: "analysisRooms joined = [''job-1'']"
    by (simp add: joined_def joinAnalysis_def initialized_def initialize_def constructor_def set_add_def)
  have sock: "socket (reconnect IoAvailable (fst (disconnect silent joined))) \<noteq> None"
    by (simp add: reconnect_def disconnect_def initialize_def Let_def split: option.splits)
  note t = disconnect_clears_rooms [where m = joined and beh = silent and env = IoAvailable
      and reason = "''transport close''", OF inv]
  from t have d: "analysisRooms (fst (disconnect silent joined)) = []"
    "socket (fst (disconnect silent joined)) = None"
    "sent (reconnect IoAvailable (fst (disconnect silent joined))) = []"
    by blast+
  from t frame
  have q: "\<exists>r. on_connect silent (reconnect IoAvailable (fst (disconnect silent joined))) = Inr r
          \<and> analysisRooms (fst r) = [] \<and> sent (fst r) = []"
    by blast
  from t frame'
  have "analysisRooms (fst (on_disconnect silent ''transport close'' joined)) = analysisRooms joined"
    by blast
  with rooms have k: "analysisRooms (fst (on_disconnect silent ''transport close'' joined)) = [''job-1'']"
    by simp
  from rooms k d sock q show ?thesis by blast
qed

text \<open>
  C9 as stated fails. The page has called \<open>initializeWebSocket('job-1')\<close> of websocket.js
  before the manager was connected, and at the connect the handler has joined the room.
  \<open>disconnect()\<close> clears the rooms but not the handlers. After \<open>reconnect()\<close> and the next
  connect the handler runs again: \<open>job-1\<close> is retained and \<open>join_analysis\<close> has been sent
  for it on the new socket.
\<close>

theorem handler_rejoins_after_disconnect:
  "on_connect (joins_on_connect ''job-1'') (initializeWebSocket_manager IoAvailable 0 ''job-1'' constructor)
     = Inr (subscribed, [(0, Returned)])
   \<and> analysisRooms subscribed = [''job-1'']
   \<and> analysisRooms (fst (disconnect (joins_on_connect ''job-1'') subscribed)) = []
   \<and> on_connect (joins_on_connect ''job-1'')
        (reconnect IoAvailable (fst (disconnect (joins_on_connect ''job-1'') subscribed)))
     = Inr (resubscribed, [(0, Returned)])
   \<and> analysisRooms resubscribed = [''job-1'']
   \<and> sent resubscribed = [join_message ''job-1'']"
  by (simp add: on_connect_def initializeWebSocket_manager_def initialize_def constructor_def on_def
        joins_on_connect_def joinAnalysis_def set_add_def socket_emit_def showConnectionStatus_def
        rejoinAnalysisRooms_def triggerEvent_def handlers_of_def subscribed_def resubscribed_def
        disconnect_def on_disconnect_def reconnect_def sent_def join_message_def Let_def)

section \<open>The progress display\<close>

lemma progress_fill_addFeedItem: "progress_fill (addFeedItem now msg s) = progress_fill s"
  and progress_percentage_addFeedItem: "progress_percentage (addFeedItem now msg s) = progress_percentage s"
  by (simp_all add: addFeedItem_def Let_def split: option.splits)

lemma progress_fill_updateStepIndicators: "progress_fill (updateStepIndicators k p s) = progress_fill s"
  and progress_percentage_updateStepIndicators:
    "progress_percentage (updateStepIndicators k p s) = progress_percentage s"
  by (simp_all add: updateStepIndicators_def)

lemma progress_fill_updateProgress:
  "progress_fill (updateProgress now p msg step s) = map_option (\<lambda>w. Percent p) (progress_fill s)"
  by (simp add: updateProgress_def Let_def progress_fill_addFeedItem
        progress_fill_updateStepIndicators split: option.splits)

lemma progress_percentage_updateProgress:
  "progress_percentage (updateProgress now p msg step s)
     = map_option (\<lambda>t. show_int (Math_round p) @ ''%'') (progress_percentage s)"
  by (cases "progress_fill s"; cases "progress_percentage s")
     (auto simp: updateProgress_def Let_def progress_percentage_addFeedItem
        progress_percentage_updateStepIndicators split: option.splits)

text \<open>Both sources hand the percentage of their event to \<open>updateProgress\<close> as it is.\<close>

lemma socket_analysis_progress_calls_updateProgress:
  "analysisId s = Some (push_analysis_id data) \<Longrightarrow>
   socket_analysis_progress now data s
     = call_updateProgress (now, push_progress data, push_current_step data, push_step data) s"
  by (simp add: socket_analysis_progress_def call_updateProgress_def)

lemma poll_continue_calls_updateProgress:
  "data_status data = ''processing'' \<Longrightarrow> data_progress data = Some p \<Longrightarrow>
   data_current_step data = Some label \<Longrightarrow> label \<noteq> [] \<Longrightarrow>
   poll_continue now (Response data) s
     = (call_updateProgress (now, p, label, getCurrentStepKey (Some label)) s)
         \<lparr>poll_timers := poll_timers (call_updateProgress (now, p, label, getCurrentStepKey (Some label)) s) + 1\<rparr>"
  by (simp add: poll_continue_def call_updateProgress_def Let_def)

text \<open>
  C1, as the code has it. \<open>updateProgress\<close> compares nothing: each call, from the push
  channel or from the polling loop, before or after a completion, puts its own
  percentage on the progress bar and (rounded) on its label, whatever they showed. Along
  a sequence of calls the display shows the percentages of the calls one after the other,
  so the displayed progress is non-decreasing exactly when the percentages arrive in
  non-decreasing order. (Percentages are not negative, as in the events of the server;
  the page has the progress bar and its label.)
\<close>

theorem updateProgress_shows_every_percentage:
  assumes "progress_fill s \<noteq> None" and "progress_percentage s \<noteq> None"
      and "\<forall>c \<in> set calls. 0 \<le> percentage_of c"
  shows "progress_trace (map call_updateProgress calls) s = map (\<lambda>c. display_of (percentage_of c)) calls
     \<and> (sorted (map shown (progress_trace (map call_updateProgress calls) s))
          \<longleftrightarrow> sorted (map percentage_of calls))"
proof -
  have tr: "progress_fill s \<noteq> None \<Longrightarrow> progress_percentage s \<noteq> None \<Longrightarrow>
      progress_trace (map call_updateProgress calls) s = map (\<lambda>c. display_of (percentage_of c)) calls"
  proof (induction calls arbitrary: s)
    case Nil
    then show ?case by simp
  next
    case (Cons c calls)
    have "progress_fill (call_updateProgress c s) = Some (Percent (percentage_of c))"
      "progress_percentage (call_updateProgress c s) = Some (show_int (Math_round (percentage_of c)) @ ''%'')"
      using Cons.prems
      by (auto simp: call_updateProgress_def percentage_of_def progress_fill_updateProgress
            progress_percentage_updateProgress)
    with Cons.IH [of "call_updateProgress c s"] show ?case by (simp add: display_of_def)
  qed
  have eq: "map shown (map (\<lambda>c. display_of (percentage_of c)) calls) = map percentage_of calls"
    by (simp add: shown_def display_of_def parseFloat_width_def comp_def)
  have "sorted (map shown (progress_trace (map call_updateProgress calls) s))
          \<longleftrightarrow> sorted (map percentage_of calls)"
    by (simp only: tr [OF assms(1) assms(2)] eq)
  with tr [OF assms(1) assms(2)] show ?thesis by blast
qed

theorem updateProgress_shows_every_percentage_witness:
  "progress_trace (map call_updateProgress
       [(1000, 10, ''Market Research'', None), (2000, 25, ''Avatar Psychology Analysis'', None)]) fresh_page
     = [(Some (Percent 10), Some ''10%''), (Some (Percent 25), Some ''25%'')]
   \<and> sorted (map shown (progress_trace (map call_updateProgress
       [(1000, 10, ''Market Research'', None), (2000, 25, ''Avatar Psychology Analysis'', None)]) fresh_page))"
proof -
  let ?calls = "[(1000, 10, ''Market Research'', None), (2000, 25, ''Avatar Psychology Analysis'', None)]
                  :: progress_call list"
  have h1: "progress_fill fresh_page \<noteq> None" by (simp add: fresh_page_def)
  have h2: "progress_percentage fresh_page \<noteq> None" by (simp add: fresh_page_def)
  have h3: "\<forall>c \<in> set ?calls. 0 \<le> percentage_of c" by (simp add: percentage_of_def)
  have d: "display_of 10 = (Some (Percent 10), Some ''10%'')" "display_of 25 = (Some (Percent 25), Some ''25%'')"
    by code_simp+
  from updateProgress_shows_every_percentage [OF h1 h2 h3]
  have tr: "progress_trace (map call_updateProgress ?calls) fresh_page
              = map (\<lambda>c. display_of (percentage_of c)) ?calls"
    and so: "sorted (map shown (progress_trace (map call_updateProgress ?calls) fresh_page))
              \<longleftrightarrow> sorted (map percentage_of ?calls)"
    by blast+
  have m: "map (\<lambda>c. display_of (percentage_of c)) ?calls
             = [(Some (Percent 10), Some ''10%''), (Some (Percent 25), Some ''25%'')]"
    by (simp add: percentage_of_def d)
  have "sorted (map percentage_of ?calls)" by (simp add: percentage_of_def)
  with so have s2: "sorted (map shown (progress_trace (map call_updateProgress ?calls) fresh_page))"
    by blast
  from tr m have t2: "progress_trace (map call_updateProgress ?calls) fresh_page
             = [(Some (Percent 10), Some ''10%''), (Some (Percent 25), Some ''25%'')]"
    by (simp only:)
  from t2 s2 show ?thesis by blast
qed

text \<open>
  C1 as stated fails. The page tracks \<open>job-1\<close> on both channels. The polling loop reports
  10 percent, then the push channel delivers 5 percent: the display goes down to 5. The
  push channel then reports the completion (the display shows 100), and a late progress
  event of 50 percent puts the display at 50.
\<close>

theorem late_lower_percentage_is_applied:
  "progress_trace
     [ response_arrives 2000 (Response (processing 10 ''Market Research'')),
       socket_analysis_progress 2100 (pushed 5 ''Market Research''),
       socket_analysis_complete 3000 ''job-1'' None,
       socket_analysis_progress 3100 (pushed 50 ''Objection Analysis'') ] tracked_both
   = [ (Some (Percent 10), Some ''10%''), (Some (Percent 5), Some ''5%''),
       (Some (Percent 100), Some ''100%''), (Some (Percent 50), Some ''50%'') ]"
  by code_simp

section \<open>Restart\<close>

text \<open>
  C3, as the code has it. \<open>restartAnalysis\<close> puts the bar and its label at 0 percent, every
  timeline item at pending, replaces the content of the feed by the one entry
  "Analysis restarted" stamped now, sets \<open>startTime\<close> to now and starts one more polling
  loop (it issues a status request for the current \<open>analysisId\<close>). It does not touch the
  socket, the interval of the time display, the error section or the report button; the
  code has no terminal flag.
\<close>

theorem restartAnalysis_effect:
  "progress_fill (restartAnalysis now s) = map_option (\<lambda>w. Percent 0) (progress_fill s)
   \<and> progress_percentage (restartAnalysis now s) = map_option (\<lambda>t. ''0%'') (progress_percentage s)
   \<and> step_items (restartAnalysis now s) = map (\<lambda>item. item\<lparr>look := Pending\<rparr>) (step_items s)
   \<and> analysis_feed (restartAnalysis now s)
       = map_option (\<lambda>feed. [(now, ''Analysis restarted'')]) (analysis_feed s)
   \<and> startTime (restartAnalysis now s) = Some now
   \<and> requests (restartAnalysis now s) = requests s @ [analysisId s]
   \<and> in_flight (restartAnalysis now s) = in_flight s + 1
   \<and> poll_timers (restartAnalysis now s) = poll_timers s
   \<and> analysisSocket (restartAnalysis now s) = analysisSocket s
   \<and> analysisId (restartAnalysis now s) = analysisId s
   \<and> progressInterval (restartAnalysis now s) = progressInterval s
   \<and> intervals (restartAnalysis now s) = intervals s
   \<and> error_section_hidden (restartAnalysis now s) = error_section_hidden s
   \<and> view_report (restartAnalysis now s) = view_report s"
  by (cases "progress_fill s"; cases "progress_percentage s"; cases "analysis_feed s")
     (simp_all add: restartAnalysis_def startProgressPolling_def poll_def showNotification_def Let_def)

text \<open>
  C3 as stated fails. The page has its socket connected and has shown an error of the push
  channel. After the restart the feed is not empty, and the socket has sent no further
  \<open>join_analysis\<close>: the one message it sent is the one from the first connect.
\<close>

theorem restartAnalysis_leaves_push_channel:
  "analysis_feed (restartAnalysis 9000 failed_page) = Some [(9000, ''Analysis restarted'')]
   \<and> map_option emitted (analysisSocket failed_page) = Some [join_message ''job-1'']
   \<and> map_option emitted (analysisSocket (restartAnalysis 9000 failed_page)) = Some [join_message ''job-1'']
   \<and> requests failed_page = [Some ''job-1'']
   \<and> requests (restartAnalysis 9000 failed_page) = [Some ''job-1'', Some ''job-1'']"
  by code_simp

section \<open>The polling loop\<close>

lemma loop_addFeedItem:
  "requests (addFeedItem now msg s) = requests s"
  "poll_timers (addFeedItem now msg s) = poll_timers s"
  "in_flight (addFeedItem now msg s) = in_flight s"
  by (simp_all add: addFeedItem_def Let_def split: option.splits)

lemma loop_updateProgress:
  "requests (updateProgress now p msg step s) = requests s"
  "poll_timers (updateProgress now p msg step s) = poll_timers s"
  "in_flight (updateProgress now p msg step s) = in_flight s"
  by (simp_all add: updateProgress_def updateStepIndicators_def loop_addFeedItem Let_def
        split: option.splits)

lemma loop_showError:
  "requests (showError now msg s) = requests s"
  "poll_timers (showError now msg s) = poll_timers s"
  "in_flight (showError now msg s) = in_flight s"
  by (simp_all add: showError_def clear_progressInterval_def showNotification_def loop_addFeedItem
        Let_def split: option.splits)

lemma loop_handleAnalysisComplete:
  "requests (handleAnalysisComplete now n s) = requests s"
  "poll_timers (handleAnalysisComplete now n s) = poll_timers s"
  "in_flight (handleAnalysisComplete now n s) = in_flight s"
  by (simp_all add: handleAnalysisComplete_def clear_progressInterval_def showNotification_def
        animateCompletion_def loop_addFeedItem loop_updateProgress Let_def split: option.splits)

text \<open>
  C4. A polling loop waits for its response, and the response reports \<open>completed\<close> or
  \<open>error\<close>. Then the loop runs the completion handler, respectively shows the error, and
  ends: it issues no request and sets no timer. If it was the only loop of the page and no
  timer was pending, nothing of the polling loop can happen any more, so no further status
  request is issued.
\<close>

theorem poll_terminal_response_stops_loop:
  assumes "data_status data = ''completed'' \<or> data_status data = ''error''"
      and "in_flight s = Suc n"
  shows "\<exists>s'. poll_step now (ResponseArrives (Response data)) s = Some s'
           \<and> s' = (if data_status data = ''completed''
                    then handleAnalysisComplete now (data_report_word_count data) (s\<lparr>in_flight := n\<rparr>)
                    else showError now
                           (case data_error_message data of
                              None \<Rightarrow> ''Analysis failed''
                            | Some t \<Rightarrow> if t = [] then ''Analysis failed'' else t)
                           (s\<lparr>in_flight := n\<rparr>))
           \<and> requests s' = requests s
           \<and> poll_timers s' = poll_timers s
           \<and> in_flight s' = n
           \<and> (n = 0 \<and> poll_timers s = 0 \<longrightarrow> (\<forall>now' ev. poll_step now' ev s' = None))"
proof -
  let ?s' = "if data_status data = ''completed''
             then handleAnalysisComplete now (data_report_word_count data) (s\<lparr>in_flight := n\<rparr>)
             else showError now
                    (case data_error_message data of
                       None \<Rightarrow> ''Analysis failed''
                     | Some t \<Rightarrow> if t = [] then ''Analysis failed'' else t)
                    (s\<lparr>in_flight := n\<rparr>)"
  have step: "poll_step now (ResponseArrives (Response data)) s = Some ?s'"
    using assms by (auto simp: poll_step_def poll_continue_def)
  have r: "requests ?s' = requests s" "poll_timers ?s' = poll_timers s" "in_flight ?s' = n"
    by (simp_all add: loop_showError loop_handleAnalysisComplete)
  have "poll_step now' ev ?s' = None" if "n = 0" "poll_timers s = 0" for now' ev
    using that r by (cases ev) (simp_all add: poll_step_def)
  with step r show ?thesis by blast
qed

text \<open>
  The first response of the tracked page reports the completion with 12345 words: the one
  request stays the only one, no timer is set, the bar shows 100 percent and the report
  button has its one listener.
\<close>

theorem poll_terminal_response_stops_loop_witness:
  "poll_step 2000 (ResponseArrives (Response (completed 12345))) tracked
     = Some (response_arrives 2000 (Response (completed 12345)) tracked)
   \<and> requests tracked = [Some ''job-1'']
   \<and> requests (response_arrives 2000 (Response (completed 12345)) tracked) = [Some ''job-1'']
   \<and> poll_timers (response_arrives 2000 (Response (completed 12345)) tracked) = 0
   \<and> in_flight (response_arrives 2000 (Response (completed 12345)) tracked) = 0
   \<and> poll_step 4000 TimerFires (response_arrives 2000 (Response (completed 12345)) tracked) = None
   \<and> progress_fill (response_arrives 2000 (Response (completed 12345)) tracked) = Some (Percent 100)
   \<and> map_option click_listeners (view_report (response_arrives 2000 (Response (completed 12345)) tracked))
       = Some 1"
proof -
  let ?r = "response_arrives 2000 (Response (completed 12345)) tracked"
  have h1: "data_status (completed 12345) = ''completed'' \<or> data_status (completed 12345) = ''error''"
    by (simp add: completed_def)
  have h2: "in_flight tracked = Suc 0" "requests tracked = [Some ''job-1'']" "poll_timers tracked = 0"
    by code_simp+
  have v: "progress_fill ?r = Some (Percent 100)"
    "map_option click_listeners (view_report ?r) = Some 1"
    by code_simp+
  from poll_terminal_response_stops_loop [OF h1 h2(1), of 2000]
  obtain s' where s': "poll_step 2000 (ResponseArrives (Response (completed 12345))) tracked = Some s'"
    "requests s' = requests tracked" "poll_timers s' = poll_timers tracked" "in_flight s' = 0"
    "\<forall>now' ev. poll_step now' ev s' = None"
    using h2 by auto
  from s'(1) have eq: "?r = s'" by (simp add: response_arrives_def)
  from s' h2 v show ?thesis unfolding eq by simp
qed

section \<open>The feed\<close>



lemma querySelectorAll_length_ge: "length feed \<le> querySelectorAll_length parse feed"
  by (induction feed) (simp_all add: querySelectorAll_length_def)








section \<open>The time display\<close>

text \<open>Some values of \<open>to_double\<close>: the doubles written 0.1 and 0.58, and the sum 0.1 + 0.2.\<close>

lemma to_double_examples:
  "to_double (1 / 10) = 3602879701896397 / 36028797018963968"
  "to_double (29 / 50) = 5224175567749775 / 9007199254740992"
  "to_double (to_double (1 / 10) + to_double (2 / 10)) = 1351079888211149 / 4503599627370496"
  "to_double (to_double (29 / 50) * 100) = 8162774324609023 / 140737488355328"
  "to_double 58 = 58"
  by code_simp+

text \<open>
  \<open>to_double\<close> rounds to a nearest double: the error is at most half a unit in the last
  place, that is \<open>\<bar>x\<bar> / 2^53\<close> for \<open>x\<close> in the normal range. The three roundings of
  \<open>(elapsed / p) * 100 - elapsed\<close> together stay below one second.
\<close>

lemma bitlen_bounds: "0 < n \<Longrightarrow> 2 ^ (bitlen n - 1) \<le> n \<and> n < 2 ^ bitlen n"
proof (induction n rule: bitlen.induct)
  case (1 n)
  show ?case
  proof (cases "n div 2 = 0")
    case True
    with "1.prems" have "n = 1" by (cases n) auto
    then show ?thesis by (simp add: bitlen.simps [of "Suc 0"] bitlen.simps [of 0])
  next
    case False
    then have pos: "0 < n div 2" by simp
    from "1.prems" have n0: "n \<noteq> 0" by simp
    from "1.IH" [OF n0 pos] have IH: "2 ^ (bitlen (n div 2) - 1) \<le> n div 2" "n div 2 < 2 ^ bitlen (n div 2)"
      by simp_all
    have bl: "bitlen n = Suc (bitlen (n div 2))" using n0 by (simp add: bitlen.simps [of n])
    have bpos: "0 < bitlen (n div 2)" using pos by (simp add: bitlen.simps [of "n div 2"])
    then obtain b where b: "bitlen (n div 2) = Suc b" by (cases "bitlen (n div 2)") auto
    from IH b have "2 * 2 ^ b \<le> 2 * (n div 2)" by simp
    also have "\<dots> \<le> n" by simp
    finally have lo: "2 ^ (bitlen n - 1) \<le> n" by (simp add: bl b)
    from IH(2) have "n div 2 + 1 \<le> 2 ^ bitlen (n div 2)" by simp
    then have "2 * (n div 2) + 2 \<le> 2 * 2 ^ bitlen (n div 2)" by simp
    moreover have "n < 2 * (n div 2) + 2" by presburger
    ultimately have hi: "n < 2 ^ bitlen n" by (simp add: bl)
    from lo hi show ?thesis by simp
  qed
qed

lemma pow2_pos: "0 < pow2 k"
  by (simp add: pow2_def)

lemma pow2_add: "pow2 (a + b) = pow2 a * pow2 b"
proof -
  have "pow2 k = 2 powi k" for k
    by (simp add: pow2_def power_int_def field_simps)
  then show ?thesis by (simp add: power_int_add)
qed

lemma pow2_nat: "pow2 (int n) = 2 ^ n"
  by (simp add: pow2_def)

lemma pow2_neg: "pow2 (- k) = 1 / pow2 k"
proof -
  have "pow2 (- k) * pow2 k = 1"
    using pow2_add [of "- k" k] by (simp add: pow2_def)
  then show ?thesis using pow2_pos [of k] by (simp add: field_simps)
qed

lemma ilog2_bounds:
  assumes "0 < x"
  shows "pow2 (ilog2 x) \<le> x \<and> x < pow2 (ilog2 x + 1)"
proof (cases "1 \<le> x")
  case True
  let ?n = "nat \<lfloor>x\<rfloor>"
  from True have npos: "0 < ?n" by simp
  from bitlen_bounds [OF npos] have b: "2 ^ (bitlen ?n - 1) \<le> ?n" "?n < 2 ^ bitlen ?n" by simp_all
  from npos have blpos: "0 < bitlen ?n" by (simp add: bitlen.simps [of ?n])
  have e: "ilog2 x = int (bitlen ?n - 1)" using True blpos by (simp add: ilog2_def)
  have "(of_nat (2 ^ (bitlen ?n - 1)) :: rat) \<le> of_nat ?n" using b(1) by (simp only: of_nat_le_iff)
  also have "(of_nat ?n :: rat) = of_int \<lfloor>x\<rfloor>" using True by simp
  also have "\<dots> \<le> x" by simp
  finally have lo: "pow2 (ilog2 x) \<le> x" by (simp add: e pow2_nat)
  have "\<lfloor>x\<rfloor> + 1 \<le> int (2 ^ bitlen ?n)" using b(2) True by simp
  then have "(of_int (\<lfloor>x\<rfloor> + 1) :: rat) \<le> of_int (int (2 ^ bitlen ?n))" by (simp only: of_int_le_iff)
  moreover have "x < of_int (\<lfloor>x\<rfloor> + 1)" by linarith
  ultimately have "x < 2 ^ bitlen ?n" by simp
  moreover have "ilog2 x + 1 = int (bitlen ?n)" using e blpos by simp
  ultimately have hi: "x < pow2 (ilog2 x + 1)" by (simp add: pow2_nat)
  from lo hi show ?thesis by simp
next
  case False
  let ?y = "1 / x"
  let ?n = "nat \<lfloor>?y\<rfloor>"
  from False assms have y1: "1 < ?y" by (simp add: field_simps)
  then have npos: "0 < ?n" by simp
  from bitlen_bounds [OF npos] have b: "2 ^ (bitlen ?n - 1) \<le> ?n" "?n < 2 ^ bitlen ?n" by simp_all
  from npos have blpos: "0 < bitlen ?n" by (simp add: bitlen.simps [of ?n])
  define k where "k = int (bitlen ?n) - 1"
  have k: "k = int (bitlen ?n - 1)" using blpos by (simp add: k_def)
  have "(of_nat (2 ^ (bitlen ?n - 1)) :: rat) \<le> of_nat ?n" using b(1) by (simp only: of_nat_le_iff)
  also have "(of_nat ?n :: rat) = of_int \<lfloor>?y\<rfloor>"
  proof -
    from y1 have "0 \<le> ?y" by linarith
    then have "0 \<le> \<lfloor>?y\<rfloor>" by (simp only: zero_le_floor)
    then show ?thesis by (simp only: of_nat_nat)
  qed
  also have "\<dots> \<le> ?y" by simp
  finally have ylo: "pow2 k \<le> ?y" by (simp add: k pow2_nat)
  have "\<lfloor>?y\<rfloor> + 1 \<le> int (2 ^ bitlen ?n)" using b(2) y1 by simp
  then have "(of_int (\<lfloor>?y\<rfloor> + 1) :: rat) \<le> of_int (int (2 ^ bitlen ?n))" by (simp only: of_int_le_iff)
  moreover have "?y < of_int (\<lfloor>?y\<rfloor> + 1)" by linarith
  ultimately have "?y < 2 ^ bitlen ?n" by simp
  moreover have "k + 1 = int (bitlen ?n)" by (simp add: k_def)
  ultimately have yhi: "?y < pow2 (k + 1)" by (simp add: pow2_nat)
  from ylo assms pow2_pos [of k] have xhi: "x \<le> pow2 (- k)"
    by (simp add: pow2_neg field_simps)
  have eq: "- k - 1 = - (k + 1)" by simp
  have inv: "pow2 (- k - 1) = 1 / pow2 (k + 1)" unfolding eq by (rule pow2_neg)
  from yhi assms pow2_pos [of "k + 1"] have "1 / pow2 (k + 1) < x"
    by (simp add: field_simps)
  then have xlo: "pow2 (- k - 1) < x" by (simp only: inv)
  show ?thesis
  proof (cases "x = pow2 (- k)")
    case True
    then have "ilog2 x = - k" using False by (simp add: ilog2_def k_def Let_def)
    moreover have "pow2 (- k) < pow2 (- k + 1)"
      using pow2_add [of "- k" 1] pow2_pos [of "- k"] by (simp add: pow2_def)
    ultimately show ?thesis using True by simp
  next
    case neq: False
    then have "ilog2 x = - k - 1" using False by (simp add: ilog2_def k_def Let_def)
    with xlo xhi neq show ?thesis by simp
  qed
qed

lemma round_half_even_error: "\<bar>of_int (round_half_even y) - y\<bar> \<le> 1 / 2"
proof -
  define f where "f = \<lfloor>y\<rfloor>"
  define d where "d = y - of_int f"
  have d: "0 \<le> d" "d < 1" by (simp_all add: d_def f_def) linarith
  have y: "y = of_int f + d" by (simp add: d_def)
  have r: "round_half_even y = (if d < 1 / 2 then f else if 1 / 2 < d then f + 1 else if even f then f else f + 1)"
    by (simp add: round_half_even_def Let_def f_def d_def)
  have "\<bar>of_int (round_half_even y) - y\<bar> = \<bar>of_int (round_half_even y) - of_int f - d\<bar>"
    by (simp add: d_def)
  also have "\<dots> \<le> 1 / 2"
    unfolding r using d by (auto simp: abs_if)
  finally show ?thesis .
qed

lemma to_double_error:
  assumes "pow2 (- 1022) \<le> \<bar>x\<bar>"
  shows "\<bar>to_double x - x\<bar> * 2 ^ 53 \<le> \<bar>x\<bar>"
proof -
  from assms pow2_pos [of "- 1022"] have x0: "x \<noteq> 0" "0 < \<bar>x\<bar>" by auto
  define e where "e = ilog2 \<bar>x\<bar>"
  from ilog2_bounds [OF x0(2)] have eb: "pow2 e \<le> \<bar>x\<bar>" "\<bar>x\<bar> < pow2 (e + 1)" by (simp_all add: e_def)
  have "- 1022 \<le> e"
  proof (rule ccontr)
    assume "\<not> - 1022 \<le> e"
    then have "e + 1 \<le> - 1022" by simp
    then obtain d where d: "- 1022 = (e + 1) + int d" by (metis zle_iff_zadd)
    have "pow2 (int d) \<ge> 1" by (simp add: pow2_nat)
    then have "pow2 (e + 1) \<le> pow2 (- 1022)"
      using pow2_add [of "e + 1" "int d"] pow2_pos [of "e + 1"] d
      by (metis mult.right_neutral mult_le_cancel_left_pos)
    with eb(2) assms show False by simp
  qed
  then have m: "max e (- 1022) = e" by simp
  define q where "q = pow2 (e - 52)"
  have qpos: "0 < q" by (simp add: q_def pow2_pos)
  have td: "to_double x = of_int (round_half_even (x / q)) * q"
    using x0 by (simp add: to_double_def Let_def e_def [symmetric] m q_def)
  have "of_int (round_half_even (x / q)) * q - x = (of_int (round_half_even (x / q)) - x / q) * q"
    using qpos by (simp add: field_simps)
  then have "\<bar>to_double x - x\<bar> = \<bar>of_int (round_half_even (x / q)) - x / q\<bar> * q"
    using qpos by (simp add: td abs_mult)
  also have "\<dots> \<le> 1 / 2 * q"
    using round_half_even_error [of "x / q"] qpos by (simp add: mult_right_mono)
  finally have "\<bar>to_double x - x\<bar> * 2 ^ 53 \<le> (1 / 2 * q) * 2 ^ 53" by simp
  also have "(1 / 2 * q) * 2 ^ 53 = pow2 e"
  proof -
    have "pow2 e = pow2 (e - 52) * pow2 52" using pow2_add [of "e - 52" 52] by simp
    then show ?thesis by (simp add: q_def pow2_def)
  qed
  finally show ?thesis using eb(1) by simp
qed


lemma to_double_error_any: "\<bar>to_double x - x\<bar> \<le> \<bar>x\<bar> / 2 ^ 53 + 1 / 2 ^ 60"
proof (cases "pow2 (- 1022) \<le> \<bar>x\<bar>")
  case True
  from to_double_error [OF True] have "\<bar>to_double x - x\<bar> \<le> \<bar>x\<bar> / 2 ^ 53"
    by (simp add: field_simps)
  then show ?thesis by simp
next
  case False
  show ?thesis
  proof (cases "x = 0")
    case True
    then show ?thesis by (simp add: to_double_def)
  next
    case x0: False
    then have xpos: "0 < \<bar>x\<bar>" by simp
    define e where "e = ilog2 \<bar>x\<bar>"
    from ilog2_bounds [OF xpos] have eb: "pow2 e \<le> \<bar>x\<bar>" by (simp add: e_def)
    have "e < - 1022"
    proof (rule ccontr)
      assume "\<not> e < - 1022"
      then obtain d where d: "e = - 1022 + int d" by (metis not_less zle_iff_zadd)
      have "pow2 (int d) \<ge> 1" by (simp add: pow2_nat)
      then have "pow2 (- 1022) \<le> pow2 e"
        using pow2_add [of "- 1022" "int d"] pow2_pos [of "- 1022"] d
        by (metis mult.right_neutral mult_le_cancel_left_pos)
      with eb False show False by simp
    qed
    then have m: "max e (- 1022) = - 1022" by simp
    define q where "q = pow2 (- 1074)"
    have qpos: "0 < q" by (simp add: q_def pow2_pos)
    have qsmall: "q \<le> 1 / 2 ^ 59" by (simp add: q_def pow2_def)
    have td: "to_double x = of_int (round_half_even (x / q)) * q"
      using x0 by (simp add: to_double_def Let_def e_def [symmetric] m q_def)
    have "of_int (round_half_even (x / q)) * q - x = (of_int (round_half_even (x / q)) - x / q) * q"
      using qpos by (simp add: field_simps)
    then have "\<bar>to_double x - x\<bar> = \<bar>of_int (round_half_even (x / q)) - x / q\<bar> * q"
      using qpos by (simp add: td abs_mult)
    also have "\<dots> \<le> 1 / 2 * q"
      using round_half_even_error [of "x / q"] qpos by (simp add: mult_right_mono)
    also have "\<dots> \<le> 1 / 2 ^ 60" using qsmall by simp
    finally show ?thesis using xpos by (simp add: add_increasing)
  qed
qed

lemma floor_close:
  fixes u v :: rat
  assumes "\<bar>u - v\<bar> < 1"
  shows "\<bar>max 0 \<lfloor>u\<rfloor> - max 0 \<lfloor>v\<rfloor>\<bar> \<le> 1"
proof -
  have "of_int \<lfloor>u\<rfloor> \<le> u" "u < of_int \<lfloor>u\<rfloor> + 1" "of_int \<lfloor>v\<rfloor> \<le> v" "v < of_int \<lfloor>v\<rfloor> + 1"
    by linarith+
  with assms have "(of_int \<lfloor>u\<rfloor> :: rat) < of_int \<lfloor>v\<rfloor> + 2" "(of_int \<lfloor>v\<rfloor> :: rat) < of_int \<lfloor>u\<rfloor> + 2"
    by linarith+
  then have "\<lfloor>u\<rfloor> < \<lfloor>v\<rfloor> + 2" "\<lfloor>v\<rfloor> < \<lfloor>u\<rfloor> + 2"
    by (metis of_int_add of_int_less_iff of_int_numeral)+
  then show ?thesis by linarith
qed

lemma estimate_error:
  fixes a :: rat and e :: int
  assumes a: "0 \<le> a" and T: "a * 100 \<le> 2 ^ 49" and e: "0 \<le> e" "of_int e \<le> a * 100"
  shows "\<bar>to_double (to_double (to_double a * 100) - of_int e) - (a * 100 - of_int e)\<bar> < 1"
proof -
  define eps :: rat where "eps = 1 / 2 ^ 53"
  define c :: rat where "c = 1 / 2 ^ 60"
  define t where "t = a * 100"
  define x1 where "x1 = to_double a"
  define x2 where "x2 = to_double (x1 * 100)"
  define x3 where "x3 = to_double (x2 - of_int e)"
  have eps: "0 \<le> eps" "eps \<le> 1 / 1000" by (simp_all add: eps_def)
  have c: "0 \<le> c" "c \<le> 1 / 100000" by (simp_all add: c_def)
  have t0: "0 \<le> t" "t \<le> 2 ^ 49" using a T by (simp_all add: t_def)
  have te: "t * eps \<le> 1 / 16" using t0 by (simp add: eps_def)
  have err: "\<bar>to_double x - x\<bar> \<le> \<bar>x\<bar> * eps + c" for x
    using to_double_error_any [of x] by (simp add: eps_def c_def)
  have "\<bar>x1 - a\<bar> \<le> a * eps + c"
    using err [of a] a by (simp add: x1_def)
  then have "100 * \<bar>x1 - a\<bar> \<le> 100 * (a * eps + c)" by simp
  then have b1: "\<bar>x1 * 100 - t\<bar> \<le> t * eps + 100 * c"
    by (simp add: t_def algebra_simps abs_if split: if_splits)
  then have b2: "\<bar>x1 * 100\<bar> \<le> t + 1 / 8" using te c t0 by linarith
  have "\<bar>x1 * 100\<bar> * eps \<le> (t + 1 / 8) * eps"
    using b2 eps(1) by (rule mult_right_mono)
  also have "\<dots> = t * eps + eps / 8" by (simp add: algebra_simps)
  finally have b3: "\<bar>x1 * 100\<bar> * eps \<le> 1 / 16 + 1 / 8000" using te eps by linarith
  have "\<bar>x2 - x1 * 100\<bar> \<le> \<bar>x1 * 100\<bar> * eps + c"
    using err [of "x1 * 100"] by (simp add: x2_def)
  with b3 have b4: "\<bar>x2 - x1 * 100\<bar> \<le> 1 / 16 + 1 / 8000 + c" by linarith
  from b1 b4 te have b5: "\<bar>x2 - t\<bar> \<le> 1 / 8 + 1 / 8000 + 101 * c" by linarith
  have et: "0 \<le> (of_int e :: rat)" "of_int e \<le> t" using e by (simp_all add: t_def)
  from b5 et t0 c have d1: "\<bar>x2 - of_int e\<bar> \<le> t + 1 / 2" by linarith
  have "\<bar>x2 - of_int e\<bar> * eps \<le> (t + 1 / 2) * eps"
    using d1 eps(1) by (rule mult_right_mono)
  also have "\<dots> = t * eps + eps / 2" by (simp add: algebra_simps)
  finally have d2: "\<bar>x2 - of_int e\<bar> * eps \<le> 1 / 16 + 1 / 2000" using te eps by linarith
  have "\<bar>x3 - (x2 - of_int e)\<bar> \<le> \<bar>x2 - of_int e\<bar> * eps + c"
    using err [of "x2 - of_int e"] by (simp add: x3_def)
  with d2 have d3: "\<bar>x3 - (x2 - of_int e)\<bar> \<le> 1 / 16 + 1 / 2000 + c" by linarith
  from d3 b5 c have "\<bar>x3 - (t - of_int e)\<bar> < 1" by linarith
  then show ?thesis by (simp add: x3_def x2_def x1_def t_def)
qed

text \<open>
  Integers below \<open>2^53\<close> are doubles, and the floor of the rounded quotient of two of them
  is their integer quotient: \<open>Math.floor((now - startTime) / 1000)\<close> and
  \<open>Math.floor(seconds / 60)\<close> are the \<open>div\<close> of the model.
\<close>

lemma round_half_even_int: "round_half_even (of_int n) = n"
  by (simp add: round_half_even_def Let_def)

lemma pow2_mono: "a \<le> b \<Longrightarrow> pow2 a \<le> pow2 b"
proof -
  assume "a \<le> b"
  then obtain d where d: "b = a + int d" by (metis zle_iff_zadd)
  have "1 \<le> pow2 (int d)" by (simp add: pow2_nat)
  then have "pow2 a * 1 \<le> pow2 a * pow2 (int d)"
    using pow2_pos [of a] by (intro mult_left_mono) simp_all
  then show ?thesis by (simp add: d pow2_add)
qed

lemma to_double_int:
  assumes "\<bar>n\<bar> < 2 ^ 53"
  shows "to_double (of_int n) = of_int n"
proof (cases "n = 0")
  case True
  then show ?thesis by (simp add: to_double_def)
next
  case False
  let ?x = "of_int n :: rat"
  have x1: "1 \<le> \<bar>?x\<bar>" using False by (simp flip: of_int_abs)
  then have xpos: "0 < \<bar>?x\<bar>" by linarith
  define e where "e = ilog2 \<bar>?x\<bar>"
  from ilog2_bounds [OF xpos] have eb: "pow2 e \<le> \<bar>?x\<bar>" "\<bar>?x\<bar> < pow2 (e + 1)" by (simp_all add: e_def)
  have e0: "0 \<le> e"
  proof (rule ccontr)
    assume "\<not> 0 \<le> e"
    then have "e + 1 \<le> 0" by simp
    from pow2_mono [OF this] have "pow2 (e + 1) \<le> 1" by (simp add: pow2_def)
    with eb(2) x1 show False by linarith
  qed
  have e52: "e \<le> 52"
  proof (rule ccontr)
    assume "\<not> e \<le> 52"
    then have "53 \<le> e" by simp
    from pow2_mono [OF this] have "2 ^ 53 \<le> pow2 e" by (simp add: pow2_def)
    moreover have "\<bar>?x\<bar> < 2 ^ 53" using assms by (simp flip: of_int_abs)
    ultimately show False using eb(1) by linarith
  qed
  then have m: "max e (- 1022) = e" using e0 by simp
  define k where "k = nat (52 - e)"
  have k: "52 - e = int k" using e52 by (simp add: k_def)
  have q: "pow2 (e - 52) = 1 / 2 ^ k"
  proof -
    have "e - 52 = - int k" using k by simp
    then show ?thesis by (simp add: pow2_neg pow2_nat)
  qed
  have "?x / pow2 (e - 52) = of_int (n * 2 ^ k)" by (simp add: q)
  then have r: "round_half_even (?x / pow2 (e - 52)) = n * 2 ^ k"
    by (simp only: round_half_even_int)
  have "to_double ?x = of_int (n * 2 ^ k) * pow2 (e - 52)"
    using False by (simp add: to_double_def Let_def e_def [symmetric] m r)
  then show ?thesis by (simp add: q)
qed

lemma floor_to_double_div:
  fixes a b :: int
  assumes a: "\<bar>a\<bar> < 2 ^ 53" and b: "0 < b" "b < 2 ^ 53"
  shows "\<lfloor>to_double (of_int a / of_int b)\<rfloor> = a div b"
proof (cases "a mod b = 0")
  case True
  define q where "q = a div b"
  have ab: "a = q * b" using True by (auto simp: q_def)
  have x: "(of_int a / of_int b :: rat) = of_int q" using b by (simp add: ab)
  have "\<bar>a\<bar> = \<bar>q\<bar> * b" unfolding ab using b by (simp add: abs_mult)
  moreover have "\<bar>q\<bar> * 1 \<le> \<bar>q\<bar> * b"
    using b by (intro mult_left_mono) simp_all
  ultimately have "\<bar>q\<bar> \<le> \<bar>a\<bar>" by simp
  with a have "\<bar>q\<bar> < 2 ^ 53" by linarith
  from to_double_int [OF this] show ?thesis by (simp add: x q_def)
next
  case False
  define q where "q = a div b"
  define r where "r = a mod b"
  have "0 \<le> r" "r < b" "r \<noteq> 0" using False b by (simp_all add: r_def)
  then have r: "0 < r" "r < b" by simp_all
  have a_eq: "a = q * b + r" by (simp add: q_def r_def)
  let ?x = "of_int a / of_int b :: rat"
  have bq: "(0 :: rat) < of_int b" using b by simp
  have x_eq: "?x = of_int q + of_int r / of_int b"
    using bq by (simp add: a_eq field_simps)
  have "1 \<le> r" "r \<le> b - 1" using r by simp_all
  then have "(of_int 1 :: rat) \<le> of_int r" "(of_int r :: rat) \<le> of_int (b - 1)"
    by (simp_all only: of_int_le_iff)
  then have rr: "(1 :: rat) \<le> of_int r" "(of_int r :: rat) \<le> of_int b - 1"
    by simp_all
  have lo: "of_int q + 1 / of_int b \<le> ?x"
    using rr(1) bq by (simp add: x_eq divide_right_mono)
  have "of_int r / of_int b \<le> (of_int b - 1) / (of_int b :: rat)"
    using rr(2) bq by (simp add: divide_right_mono)
  also have "\<dots> = 1 - 1 / of_int b" using bq by (simp add: field_simps)
  finally have hi: "?x \<le> of_int q + 1 - 1 / of_int b" by (simp add: x_eq)
  have a0: "a \<noteq> 0" using False by auto
  have "\<bar>?x\<bar> = \<bar>of_int a\<bar> / \<bar>of_int b :: rat\<bar>" by (rule abs_divide)
  then have ax: "\<bar>?x\<bar> = of_int \<bar>a\<bar> / of_int b" using bq by (simp only: of_int_abs abs_of_pos)
  have "1 \<le> \<bar>a\<bar>" using a0 by simp
  then have "(of_int 1 :: rat) \<le> of_int \<bar>a\<bar>" by (simp only: of_int_le_iff)
  then have "(1 :: rat) \<le> of_int \<bar>a\<bar>" by simp
  then have x_lo: "1 / of_int b \<le> \<bar>?x\<bar>" using bq by (simp add: ax divide_right_mono)
  have "(of_int b :: rat) \<le> of_int (2 ^ 53)" using b(2) by (simp only: of_int_le_iff)
  then have "(of_int b :: rat) \<le> 2 ^ 53" by simp
  also have "(2 ^ 53 :: rat) \<le> 2 ^ 1022" by simp
  finally have "1 / 2 ^ 1022 \<le> 1 / (of_int b :: rat)" using bq by (simp add: field_simps)
  from this x_lo have "1 / 2 ^ 1022 \<le> \<bar>?x\<bar>" by (rule order_trans)
  moreover have "pow2 (- 1022) = 1 / 2 ^ 1022" by (simp add: pow2_def)
  ultimately have normal: "pow2 (- 1022) \<le> \<bar>?x\<bar>" by (simp only:)
  have "(of_int \<bar>a\<bar> :: rat) < of_int (2 ^ 53)" using a by (simp only: of_int_less_iff)
  then have "(of_int \<bar>a\<bar> :: rat) < 2 ^ 53" by simp
  then have "\<bar>?x\<bar> < 2 ^ 53 / of_int b" using bq by (simp add: ax divide_strict_right_mono)
  with to_double_error [OF normal] have "\<bar>to_double ?x - ?x\<bar> * 2 ^ 53 < 2 ^ 53 / of_int b"
    by linarith
  then have err: "\<bar>to_double ?x - ?x\<bar> < 1 / of_int b" by (simp add: field_simps)
  from err lo hi have "of_int q < to_double ?x" "to_double ?x < of_int q + 1" by linarith+
  then have "\<lfloor>to_double ?x\<rfloor> = q" by linarith
  then show ?thesis by (simp add: q_def)
qed

text \<open>
  C7, as the code has it. At a tick the elapsed time is the whole number of seconds in
  \<open>now - startTime\<close> (milliseconds, rounded down). With the bar at \<open>p\<close> percent,
  \<open>0 < p < 100\<close>, the estimated total is \<open>(elapsed / p) * 100\<close>, computed in that order in
  double arithmetic, and the remaining time shown is the estimated total minus the elapsed
  time, rounded down to whole seconds and not below 0; it differs from
  \<open>max(0, floor(elapsed / (p / 100) - elapsed))\<close> by one second at most. Otherwise (at 0,
  at 100 and beyond) no estimate is made: the remaining time and the completion time keep
  what they showed. (The page has the progress bar and the element for the remaining
  time.)
\<close>

theorem time_tick_estimate:
  assumes "progress_fill s = Some w" and "remaining_time s = Some t"
  shows "elapsed now s = (now - (case startTime s of None \<Rightarrow> 0 | Some t0 \<Rightarrow> t0)) div 1000
     \<and> elapsed_time (time_tick now s) = map_option (\<lambda>t. formatTime (elapsed now s)) (elapsed_time s)
     \<and> (0 < parseFloat_width w \<and> parseFloat_width w < 100 \<longrightarrow>
          remaining_time (time_tick now s)
            = Some (formatTime (max 0 \<lfloor>to_double
                      (to_double (to_double (of_int (elapsed now s) / parseFloat_width w) * 100)
                         - of_int (elapsed now s))\<rfloor>)))
     \<and> (0 < parseFloat_width w \<and> parseFloat_width w < 100 \<and> 0 \<le> elapsed now s
          \<and> of_int (elapsed now s) / parseFloat_width w * 100 \<le> 2 ^ 49 \<longrightarrow>
          \<bar>remaining (elapsed now s) (parseFloat_width w)
             - max 0 \<lfloor>of_int (elapsed now s) / (parseFloat_width w / 100) - of_int (elapsed now s)\<rfloor>\<bar> \<le> 1)
     \<and> (\<not> (0 < parseFloat_width w \<and> parseFloat_width w < 100) \<longrightarrow>
          remaining_time (time_tick now s) = remaining_time s
          \<and> completion_time (time_tick now s) = completion_time s)"
proof -
  let ?e = "elapsed now s"
  let ?p = "parseFloat_width w"
  have shown_values:
    "elapsed now s = (now - (case startTime s of None \<Rightarrow> 0 | Some t0 \<Rightarrow> t0)) div 1000
     \<and> elapsed_time (time_tick now s) = map_option (\<lambda>t. formatTime ?e) (elapsed_time s)
     \<and> (0 < ?p \<and> ?p < 100 \<longrightarrow>
          remaining_time (time_tick now s)
            = Some (formatTime (max 0 \<lfloor>to_double
                      (to_double (to_double (of_int ?e / ?p) * 100) - of_int ?e)\<rfloor>)))
     \<and> (\<not> (0 < ?p \<and> ?p < 100) \<longrightarrow>
          remaining_time (time_tick now s) = remaining_time s
          \<and> completion_time (time_tick now s) = completion_time s)"
    using assms
    by (auto simp: time_tick_def elapsed_def remaining_def totalEstimated_def Let_def
        split: option.splits)
  have close: "\<bar>remaining ?e ?p - max 0 \<lfloor>of_int ?e / (?p / 100) - of_int ?e\<rfloor>\<bar> \<le> 1"
    if p: "0 < ?p" "?p < 100" and e: "0 \<le> ?e" and small: "of_int ?e / ?p * 100 \<le> 2 ^ 49"
  proof -
    let ?a = "of_int ?e / ?p :: rat"
    have a0: "0 \<le> ?a" using p e by simp
    have "of_int ?e * ?p \<le> (of_int ?e :: rat) * 100"
      using p e by (intro mult_left_mono) simp_all
    then have le: "of_int ?e \<le> ?a * 100" using p by (simp add: field_simps)
    from estimate_error [OF a0 small e le]
    have "\<bar>to_double (to_double (to_double ?a * 100) - of_int ?e) - (?a * 100 - of_int ?e)\<bar> < 1" .
    from floor_close [OF this] show ?thesis
      by (simp add: remaining_def totalEstimated_def)
  qed
  from shown_values close show ?thesis by blast
qed

text \<open>
  Started at instant 0 with the bar at 30 percent, the tick at 10999 ms shows 10 seconds
  elapsed and 23 seconds remaining; with the bar at 100 percent it leaves the remaining
  time alone.
\<close>

theorem time_tick_estimate_witness:
  "elapsed_time (time_tick 10999 (updateProgress 5000 30 ''Avatar Psychology Analysis'' None
       (startTimeTracking 0 fresh_page))) = Some ''00:10''
   \<and> remaining_time (time_tick 10999 (updateProgress 5000 30 ''Avatar Psychology Analysis'' None
       (startTimeTracking 0 fresh_page))) = Some ''00:23''
   \<and> remaining_time (time_tick 10999 (updateProgress 5000 100 ''PDF Generation'' None
       (startTimeTracking 0 fresh_page))) = Some ''--:--''"
proof -
  let ?s = "updateProgress 5000 30 ''Avatar Psychology Analysis'' None (startTimeTracking 0 fresh_page)"
  let ?d = "updateProgress 5000 100 ''PDF Generation'' None (startTimeTracking 0 fresh_page)"
  have s: "progress_fill ?s = Some (Percent 30)" "remaining_time ?s = Some ''--:--''"
    "elapsed_time ?s = Some ''00:00''" "elapsed 10999 ?s = 10"
    by code_simp+
  have d: "progress_fill ?d = Some (Percent 100)" "remaining_time ?d = Some ''--:--''"
    by code_simp+
  have f: "formatTime 10 = ''00:10''"
    "formatTime (max 0 \<lfloor>to_double
        (to_double (to_double (of_int 10 / parseFloat_width (Percent 30)) * 100) - of_int 10)\<rfloor>) = ''00:23''"
    by code_simp+
  have p: "0 < parseFloat_width (Percent 30) \<and> parseFloat_width (Percent 30) < 100"
    "\<not> (0 < parseFloat_width (Percent 100) \<and> parseFloat_width (Percent 100) < 100)"
    by (simp_all add: parseFloat_width_def)
  from time_tick_estimate [OF s(1) s(2), of 10999] p(1)
  have "elapsed_time (time_tick 10999 ?s) = map_option (\<lambda>t. formatTime (elapsed 10999 ?s)) (elapsed_time ?s)"
    and "remaining_time (time_tick 10999 ?s)
      = Some (formatTime (max 0 \<lfloor>to_double
                (to_double (to_double (of_int (elapsed 10999 ?s) / parseFloat_width (Percent 30)) * 100)
                   - of_int (elapsed 10999 ?s))\<rfloor>))"
    by blast+
  then have a: "elapsed_time (time_tick 10999 ?s) = Some ''00:10''"
    and b: "remaining_time (time_tick 10999 ?s) = Some ''00:23''"
    by (simp_all only: s f option.map)
  from time_tick_estimate [OF d(1) d(2), of 10999] p(2)
  have "remaining_time (time_tick 10999 ?d) = remaining_time ?d"
    by blast
  then have c: "remaining_time (time_tick 10999 ?d) = Some ''--:--''"
    by (simp only: d)
  from a b c show ?thesis by blast
qed

text \<open>
  C7 as stated fails. 10999 ms after the start the elapsed time is 10, not 10.999
  seconds; at 30 percent the remaining time is 23 seconds, not the
  \<open>10 / (30 / 100) - 10 = 23 1/3\<close> of the formula. And 29 seconds after the start at 50
  percent the code shows 28 seconds, where the formula gives \<open>29 / (50 / 100) - 29 = 29\<close>:
  the double \<open>(29 / 50) * 100\<close> lies just below 58.
\<close>

theorem time_tick_rounds_down:
  "elapsed 10999 (startTimeTracking 0 fresh_page) = 10
   \<and> (of_int (elapsed 10999 (startTimeTracking 0 fresh_page)) :: rat) \<noteq> (10999 - 0) / 1000
   \<and> remaining 10 30 = 23
   \<and> (of_int (remaining 10 30) :: rat) \<noteq> max 0 (10 / (30 / 100) - 10)
   \<and> remaining_time (time_tick 10999 (updateProgress 5000 30 ''Avatar Psychology Analysis'' None
        (startTimeTracking 0 fresh_page))) = Some ''00:23''
   \<and> remaining 29 50 = 28
   \<and> max 0 ((29 :: rat) / (50 / 100) - 29) = 29
   \<and> remaining_time (time_tick 29000 (updateProgress 5000 50 ''Objection Analysis'' None
        (startTimeTracking 0 fresh_page))) = Some ''00:28''"
  by code_simp

end
